theory Spec2Isabelle
  imports Main "HOL-Library.AList" "HOL-Library.Sublist"
begin

section \<open>Data model\<close>

text \<open>
  The Python exceptions the library can raise by itself: a failed \<^verbatim>\<open>assert\<close> (with its
  message), a failed attribute lookup (with the attribute's name), a missing dictionary
  key and an out-of-range positional argument.
\<close>

datatype error =
    AssertionError string
  | AttributeError string
  | KeyError string
  | IndexError

record user =
  is_staff :: bool
  is_superuser :: bool

text \<open>
  A request carries its HTTP method and its user; \<open>None\<close> is Python's \<^verbatim>\<open>None\<close>
  (the framework's setting for unauthenticated requests may put it there).
\<close>

record request =
  http_method :: string
  user :: "user option"

text \<open>
  A permission method is developer code that takes the request and answers with a
  boolean. A class or an instance is seen by the library only through \<^verbatim>\<open>hasattr\<close> and
  \<^verbatim>\<open>getattr\<close>: it is the table of the attributes that resolve on it. The attributes
  follow the library's convention: what is found under the name of a permission method
  can be called with the request and returns a boolean.
\<close>

type_synonym perm_method = "request \<Rightarrow> bool"

type_synonym attr_table = "string \<Rightarrow> perm_method option"

record model_class =
  class_str :: string
  class_attrs :: attr_table

record serializer =
  serializer_class_name :: string
  meta_model :: "model_class option"
  context_request :: "request option"

text \<open>
  The three options of \<^verbatim>\<open>DRYPermissions\<close>; a subclass overrides them.
\<close>

record gate =
  global_permissions :: bool
  object_permissions :: bool
  partial_update_is_update :: bool

text \<open>
  A view: \<open>action = None\<close> says that the view object has no attribute \<^verbatim>\<open>action\<close>;
  \<open>kwargs\<close> holds the keys of the routing parameters (the code only tests membership).
\<close>

record view =
  view_class_name :: string
  action :: "string option"
  serializer_class :: serializer
  permission_classes :: "gate list"
  lookup_field :: string
  kwargs :: "string list"

text \<open>
  What a run does besides returning: each \<^verbatim>\<open>hasattr\<close> probe and each call of a
  developer's method, in order, with the receiver it went to.
\<close>

datatype target = OnModel | OnObject | Wrapped

datatype event = Probe target string | Call target string

text \<open>\<^verbatim>\<open>rest_framework.permissions.SAFE_METHODS\<close>, the constant the gate imports.\<close>

definition SAFE_METHODS :: "string list" where
  "SAFE_METHODS = [''GET'', ''HEAD'', ''OPTIONS'']"

definition quote :: string where
  "quote = [CHR 0x27]"

section \<open>The permission gate\<close>

definition DRYPermissions :: gate where
  "DRYPermissions =
     \<lparr>global_permissions = True, object_permissions = True, partial_update_is_update = True\<rparr>"

definition DRYGlobalPermissions :: gate where
  "DRYGlobalPermissions = DRYPermissions\<lparr>object_permissions := False\<rparr>"

definition DRYObjectPermissions :: gate where
  "DRYObjectPermissions = DRYPermissions\<lparr>global_permissions := False\<rparr>"

definition get_action :: "gate \<Rightarrow> string \<Rightarrow> string" where
  "get_action self act =
     (if partial_update_is_update self \<and> act = ''partial_update'' then ''update'' else act)"

text \<open>
  \<^verbatim>\<open>_get_error_message\<close>: the test \<^verbatim>\<open>if action_method_name\<close> is Python truthiness, false
  for \<^verbatim>\<open>None\<close> and for the empty string.
\<close>

definition get_error_message :: "string \<Rightarrow> string \<Rightarrow> string option \<Rightarrow> string" where
  "get_error_message model_str method_name action_method_name =
     (case action_method_name of
        Some n \<Rightarrow>
          (if n \<noteq> [] then
             quote @ model_str @ quote @ '' does not have '' @ quote @ method_name @ quote
               @ '' or '' @ quote @ n @ quote @ '' defined.''
           else
             quote @ model_str @ quote @ '' does not have '' @ quote @ method_name @ quote
               @ '' defined.'')
      | None \<Rightarrow>
          quote @ model_str @ quote @ '' does not have '' @ quote @ method_name @ quote
            @ '' defined.'')"

definition global_method_name :: "string \<Rightarrow> string" where
  "global_method_name act = ''has_'' @ act @ ''_permission''"

definition object_method_name :: "string \<Rightarrow> string" where
  "object_method_name act = ''has_object_'' @ act @ ''_permission''"

text \<open>\<^verbatim>\<open>str(model_class)\<close>, also when the serializer has no model.\<close>

definition model_str :: "model_class option \<Rightarrow> string" where
  "model_str m = (case m of None \<Rightarrow> ''None'' | Some c \<Rightarrow> class_str c)"

text \<open>
  \<^verbatim>\<open>DRYPermissions.has_permission\<close>. The first component of the result is the trace of
  probes and calls, the second the returned value or the exception raised.
\<close>

definition has_permission :: "gate \<Rightarrow> request \<Rightarrow> view \<Rightarrow> event list \<times> (error + bool)" where
  "has_permission self req vw =
     (if \<not> global_permissions self then ([], Inr True)
      else
        case meta_model (serializer_class vw) of
          None \<Rightarrow>
            ([], Inl (AssertionError
               (''global_permissions set to true without a model set on the serializer for ''
                  @ quote @ view_class_name vw @ quote)))
        | Some mc \<Rightarrow>
            (let (tr, action_method_name, early) =
               (case action vw of
                  None \<Rightarrow> ([], None, None)
                | Some a \<Rightarrow>
                    (let n = global_method_name (get_action self a) in
                     case class_attrs mc n of
                       Some meth \<Rightarrow> ([Probe OnModel n, Call OnModel n], Some n, Some (meth req))
                     | None \<Rightarrow> ([Probe OnModel n], Some n, None)))
             in
               case early of
                 Some r \<Rightarrow> (tr, Inr r)
               | None \<Rightarrow>
                   if http_method req \<in> set SAFE_METHODS then
                     (case class_attrs mc ''has_read_permission'' of
                        None \<Rightarrow>
                          (tr @ [Probe OnModel ''has_read_permission''],
                           Inl (AssertionError
                             (get_error_message (class_str mc) ''has_read_permission''
                                action_method_name)))
                      | Some meth \<Rightarrow>
                          (tr @ [Probe OnModel ''has_read_permission'',
                                 Call OnModel ''has_read_permission''],
                           Inr (meth req)))
                   else
                     (case class_attrs mc ''has_write_permission'' of
                        None \<Rightarrow>
                          (tr @ [Probe OnModel ''has_write_permission''],
                           Inl (AssertionError
                             (get_error_message (class_str mc) ''has_write_permission''
                                action_method_name)))
                      | Some meth \<Rightarrow>
                          (tr @ [Probe OnModel ''has_write_permission'',
                                 Call OnModel ''has_write_permission''],
                           Inr (meth req)))))"

text \<open>
  \<^verbatim>\<open>DRYPermissions.has_object_permission\<close>: the same resolution on the instance
  \<open>obj\<close>. The model class is read only for the error message, so a serializer without a
  model does not fail here.
\<close>

definition has_object_permission ::
  "gate \<Rightarrow> request \<Rightarrow> view \<Rightarrow> attr_table \<Rightarrow> event list \<times> (error + bool)" where
  "has_object_permission self req vw obj =
     (if \<not> object_permissions self then ([], Inr True)
      else
        (let mc = meta_model (serializer_class vw);
             (tr, action_method_name, early) =
               (case action vw of
                  None \<Rightarrow> ([], None, None)
                | Some a \<Rightarrow>
                    (let n = object_method_name (get_action self a) in
                     case obj n of
                       Some meth \<Rightarrow> ([Probe OnObject n, Call OnObject n], Some n, Some (meth req))
                     | None \<Rightarrow> ([Probe OnObject n], Some n, None)))
         in
           case early of
             Some r \<Rightarrow> (tr, Inr r)
           | None \<Rightarrow>
               if http_method req \<in> set SAFE_METHODS then
                 (case obj ''has_object_read_permission'' of
                    None \<Rightarrow>
                      (tr @ [Probe OnObject ''has_object_read_permission''],
                       Inl (AssertionError
                         (get_error_message (model_str mc) ''has_object_read_permission''
                            action_method_name)))
                  | Some meth \<Rightarrow>
                      (tr @ [Probe OnObject ''has_object_read_permission'',
                             Call OnObject ''has_object_read_permission''],
                       Inr (meth req)))
               else
                 (case obj ''has_object_write_permission'' of
                    None \<Rightarrow>
                      (tr @ [Probe OnObject ''has_object_write_permission''],
                       Inl (AssertionError
                         (get_error_message (model_str mc) ''has_object_write_permission''
                            action_method_name)))
                  | Some meth \<Rightarrow>
                      (tr @ [Probe OnObject ''has_object_write_permission'',
                             Call OnObject ''has_object_write_permission''],
                       Inr (meth req)))))"

text \<open>
  The overall decision, as the repository's tests compute it
  (\<^verbatim>\<open>DummyViewSet.dummy_check_permission\<close>): every permission of the view must pass
  \<^verbatim>\<open>has_permission\<close>, then every one must pass \<^verbatim>\<open>has_object_permission\<close>; the first
  denial returns \<^verbatim>\<open>False\<close> and stops.
\<close>

fun global_checks :: "gate list \<Rightarrow> request \<Rightarrow> view \<Rightarrow> event list \<times> (error + bool)" where
  "global_checks [] req vw = ([], Inr True)"
| "global_checks (permission # rest) req vw =
     (case has_permission permission req vw of
        (tr, Inl e) \<Rightarrow> (tr, Inl e)
      | (tr, Inr ok) \<Rightarrow>
          if \<not> ok then (tr, Inr False)
          else (case global_checks rest req vw of (tr', r) \<Rightarrow> (tr @ tr', r)))"

fun object_checks ::
  "gate list \<Rightarrow> request \<Rightarrow> view \<Rightarrow> attr_table \<Rightarrow> event list \<times> (error + bool)" where
  "object_checks [] req vw obj = ([], Inr True)"
| "object_checks (permission # rest) req vw obj =
     (case has_object_permission permission req vw obj of
        (tr, Inl e) \<Rightarrow> (tr, Inl e)
      | (tr, Inr ok) \<Rightarrow>
          if \<not> ok then (tr, Inr False)
          else (case object_checks rest req vw obj of (tr', r) \<Rightarrow> (tr @ tr', r)))"

definition dummy_check_permission ::
  "view \<Rightarrow> request \<Rightarrow> attr_table \<Rightarrow> event list \<times> (error + bool)" where
  "dummy_check_permission self req obj =
     (case global_checks (permission_classes self) req self of
        (tr, Inl e) \<Rightarrow> (tr, Inl e)
      | (tr, Inr ok) \<Rightarrow>
          if \<not> ok then (tr, Inr False)
          else (case object_checks (permission_classes self) req self obj of
                  (tr', r) \<Rightarrow> (tr @ tr', r)))"

section \<open>The filter router\<close>

text \<open>
  A filter backend is an instance of a subclass of \<^verbatim>\<open>DRYPermissionFiltersBase\<close>: its
  \<^verbatim>\<open>action_routing\<close> option and the filter methods the subclass defines (developer code
  that maps a queryset to a queryset).
\<close>

record 'q filter_backend =
  action_routing :: bool
  filter_methods :: "string \<Rightarrow> (request \<Rightarrow> 'q \<Rightarrow> view \<Rightarrow> 'q) option"

text \<open>The base class's \<^verbatim>\<open>filter_list_queryset\<close>: \<^verbatim>\<open>assert False\<close>.\<close>

definition filter_list_queryset :: "request \<Rightarrow> 'q \<Rightarrow> view \<Rightarrow> error + 'q" where
  "filter_list_queryset req queryset vw =
     Inl (AssertionError
       (''Method filter_list_queryset must be overridden on ''
          @ quote @ view_class_name vw @ quote))"

text \<open>
  Attribute lookup of a filter method on the instance: the subclass's own method if it
  defines one, else what the base class provides. Of the names
  \<^verbatim>\<open>filter_{action}_queryset\<close> the base class provides \<^verbatim>\<open>filter_list_queryset\<close> only.
\<close>

definition getattr_backend ::
  "'q filter_backend \<Rightarrow> string \<Rightarrow> error + (request \<Rightarrow> 'q \<Rightarrow> view \<Rightarrow> error + 'q)" where
  "getattr_backend self name =
     (case filter_methods self name of
        Some m \<Rightarrow> Inr (\<lambda>req queryset vw. Inr (m req queryset vw))
      | None \<Rightarrow>
          if name = ''filter_list_queryset'' then Inr filter_list_queryset
          else Inl (AttributeError name))"

definition filter_queryset ::
  "'q filter_backend \<Rightarrow> request \<Rightarrow> 'q \<Rightarrow> view \<Rightarrow> error + 'q" where
  "filter_queryset self req queryset vw =
     (if lookup_field vw \<notin> set (kwargs vw) then
        (if \<not> action_routing self then
           (case getattr_backend self ''filter_list_queryset'' of
              Inl e \<Rightarrow> Inl e
            | Inr m \<Rightarrow> m req queryset vw)
         else
           (case action vw of
              None \<Rightarrow> Inl (AttributeError ''action'')
            | Some a \<Rightarrow>
                (let method_name = ''filter_'' @ a @ ''_queryset'' in
                 case getattr_backend self method_name of
                   Inl e \<Rightarrow> Inl e
                 | Inr m \<Rightarrow> m req queryset vw)))
      else Inr queryset)"

section \<open>The permissions field\<close>

datatype pyval = PyStr string | PyBool bool | PyInt int | PyNone

text \<open>
  An entry of \<^verbatim>\<open>action_method_map\<close>: the dictionary with the optional keys
  \<^verbatim>\<open>'global'\<close> and \<^verbatim>\<open>'object'\<close>.
\<close>

record method_names =
  mn_global :: "string option"
  mn_object :: "string option"

text \<open>
  The field's state. Dictionaries are association lists in insertion order, which is the
  order Python iterates them in. \<open>super_kwargs\<close> are the keyword arguments handed to the
  framework's \<^verbatim>\<open>Field.__init__\<close> and \<open>base\<close> is what that constructor built; \<open>parent\<close>
  and \<open>field_name\<close> are set by the framework's \<^verbatim>\<open>Field.bind\<close>.
\<close>

record 'b field =
  action_method_map :: "(string \<times> method_names) list"
  global_only :: bool
  object_only :: bool
  actions :: "string list"
  super_kwargs :: "string \<Rightarrow> pyval option"
  base :: 'b
  parent :: "serializer option"
  field_name :: "string option"

definition default_actions :: "string list" where
  "default_actions = [''create'', ''retrieve'', ''update'', ''destroy'', ''write'', ''read'']"

text \<open>
  \<^verbatim>\<open>DRYPermissionsField.__init__\<close>. The framework's base constructor is the parameter
  \<open>base_init\<close>: it receives the keyword arguments and may reject them.
\<close>

definition DRYPermissionsField_init ::
  "((string \<Rightarrow> pyval option) \<Rightarrow> error + 'b) \<Rightarrow> string list option \<Rightarrow> string list option
     \<Rightarrow> bool \<Rightarrow> bool \<Rightarrow> (string \<Rightarrow> pyval option) \<Rightarrow> error + 'b field" where
  "DRYPermissionsField_init base_init acts additional_actions g_only o_only kw =
     (if g_only \<and> o_only then
        Inl (AssertionError
          ''Both global_only and object_only cannot be set to true on a DRYPermissionsField'')
      else
        (let acts1 = (case acts of None \<Rightarrow> default_actions | Some l \<Rightarrow> l);
             acts2 = (case additional_actions of None \<Rightarrow> acts1 | Some l \<Rightarrow> acts1 @ l);
             kw1 = kw(''source'' \<mapsto> PyStr ''*'');
             kw2 = kw1(''read_only'' \<mapsto> PyBool True)
         in
           case base_init kw2 of
             Inl e \<Rightarrow> Inl e
           | Inr b \<Rightarrow>
               Inr \<lparr>action_method_map = [], global_only = g_only, object_only = o_only,
                    actions = acts2, super_kwargs = kw2, base = b, parent = None,
                    field_name = None\<rparr>))"

definition hasattr :: "(string \<Rightarrow> 'm option) \<Rightarrow> string \<Rightarrow> bool" where
  "hasattr tbl name = (tbl name \<noteq> None)"

text \<open>The body of the loop of \<^verbatim>\<open>bind\<close>, for one action.\<close>

definition bind_action ::
  "'b field \<Rightarrow> model_class \<Rightarrow> (string \<times> method_names) list \<Rightarrow> string
     \<Rightarrow> (string \<times> method_names) list" where
  "bind_action self mc amap act =
     (let amap1 =
        (if \<not> object_only self then
           (let gname = global_method_name act in
            if hasattr (class_attrs mc) gname then
              AList.update act \<lparr>mn_global = Some gname, mn_object = None\<rparr> amap
            else amap)
         else amap)
      in
        if \<not> global_only self then
          (let oname = object_method_name act in
           if hasattr (class_attrs mc) oname then
             (let amap2 =
                (case map_of amap1 act of
                   None \<Rightarrow> AList.update act \<lparr>mn_global = None, mn_object = None\<rparr> amap1
                 | Some _ \<Rightarrow> amap1)
              in AList.map_entry act (\<lambda>mn. mn\<lparr>mn_object := Some oname\<rparr>) amap2)
           else amap1)
        else amap1)"

definition bind :: "'b field \<Rightarrow> string \<Rightarrow> serializer \<Rightarrow> error + 'b field" where
  "bind self fname par =
     (case meta_model par of
        None \<Rightarrow>
          Inl (AssertionError
            (''DRYPermissions is used on '' @ quote @ serializer_class_name par @ quote
               @ '' without a model''))
      | Some mc \<Rightarrow>
          Inr (self\<lparr>action_method_map :=
                       foldl (bind_action self mc) (action_method_map self) (actions self),
                    parent := Some par, field_name := Some fname\<rparr>))"

text \<open>
  \<^verbatim>\<open>getattr(receiver, name)(self.context['request'])\<close>: the attribute is looked up first,
  then the request is read from the serializer context, then the method is called.
\<close>

definition invoke :: "attr_table \<Rightarrow> string \<Rightarrow> request option \<Rightarrow> error + bool" where
  "invoke tbl name ctx =
     (case tbl name of
        None \<Rightarrow> Inl (AttributeError name)
      | Some meth \<Rightarrow>
          (case ctx of
             None \<Rightarrow> Inl (KeyError ''request'')
           | Some req \<Rightarrow> Inr (meth req)))"

text \<open>
  The body of the loop of \<^verbatim>\<open>to_representation\<close>, for one item of the map. The state is
  the trace so far and the \<^verbatim>\<open>results\<close> dictionary. An unbound field has no parent:
  \<^verbatim>\<open>self.parent.Meta\<close> fails on it and its context is empty.
\<close>

definition represent_action ::
  "'b field \<Rightarrow> attr_table \<Rightarrow> string \<times> method_names \<Rightarrow> event list \<times> (string \<times> bool) list
     \<Rightarrow> event list \<times> (error + (string \<times> bool) list)" where
  "represent_action self val item st =
     (case item of (act, mn) \<Rightarrow>
      case st of (tr, results) \<Rightarrow>
        (case
           (if \<not> object_only self \<and> mn_global mn \<noteq> None then
              (case parent self of
                 None \<Rightarrow> (tr, Inl (AttributeError ''Meta''))
               | Some par \<Rightarrow>
                   (case invoke (case meta_model par of None \<Rightarrow> Map.empty
                                 | Some mc \<Rightarrow> class_attrs mc)
                           (the (mn_global mn)) (context_request par) of
                      Inl e \<Rightarrow> (tr, Inl e)
                    | Inr b \<Rightarrow>
                        (tr @ [Call OnModel (the (mn_global mn))],
                         Inr (AList.update act b results))))
            else (tr, Inr results)) of
           (tr1, Inl e) \<Rightarrow> (tr1, Inl e)
         | (tr1, Inr results1) \<Rightarrow>
             if \<not> global_only self
                \<and> (case map_of results1 act of None \<Rightarrow> True | Some b \<Rightarrow> b)
                \<and> mn_object mn \<noteq> None then
               (case invoke val (the (mn_object mn))
                       (case parent self of None \<Rightarrow> None
                        | Some par \<Rightarrow> context_request par) of
                  Inl e \<Rightarrow> (tr1, Inl e)
                | Inr b \<Rightarrow>
                    (tr1 @ [Call OnObject (the (mn_object mn))],
                     Inr (AList.update act b results1)))
             else (tr1, Inr results1)))"

fun represent_loop ::
  "'b field \<Rightarrow> attr_table \<Rightarrow> (string \<times> method_names) list
     \<Rightarrow> event list \<times> (string \<times> bool) list
     \<Rightarrow> event list \<times> (error + (string \<times> bool) list)" where
  "represent_loop self val [] st = (fst st, Inr (snd st))"
| "represent_loop self val (item # items) st =
     (case represent_action self val item st of
        (tr, Inl e) \<Rightarrow> (tr, Inl e)
      | (tr, Inr results) \<Rightarrow> represent_loop self val items (tr, results))"

definition to_representation ::
  "'b field \<Rightarrow> attr_table \<Rightarrow> event list \<times> (error + (string \<times> bool) list)" where
  "to_representation self val = represent_loop self val (action_method_map self) ([], [])"

section \<open>The decorator\<close>

text \<open>
  A positional argument is a request or some other object (a model instance, a class),
  which has no attribute \<^verbatim>\<open>user\<close>. A wrapped function is its \<^verbatim>\<open>__name__\<close> and its body.
\<close>

datatype pyarg = ArgRequest request | ArgObject string

record pyfunc =
  func_name :: string
  func_body :: "pyarg list \<Rightarrow> (string \<times> pyarg) list \<Rightarrow> bool"

definition arg_at :: "pyarg list \<Rightarrow> nat \<Rightarrow> error + pyarg" where
  "arg_at args i = (if i < length args then Inr (args ! i) else Inl IndexError)"

text \<open>
  \<^verbatim>\<open>allow_staff_or_superuser(func)(*args, **kwargs)\<close>: the call of the wrapper that the
  decorator returns.
\<close>

definition allow_staff_or_superuser ::
  "pyfunc \<Rightarrow> pyarg list \<Rightarrow> (string \<times> pyarg) list \<Rightarrow> event list \<times> (error + bool)" where
  "allow_staff_or_superuser func args kwds =
     (let is_object_permission = sublist ''has_object'' (func_name func) in
      case arg_at args 0 of
        Inl e \<Rightarrow> ([], Inl e)
      | Inr first \<Rightarrow>
          (case (if is_object_permission then arg_at args 1 else Inr first) of
             Inl e \<Rightarrow> ([], Inl e)
           | Inr located \<Rightarrow>
               (case located of
                  ArgObject _ \<Rightarrow> ([], Inl (AttributeError ''user''))
                | ArgRequest req \<Rightarrow>
                    (case user req of
                       None \<Rightarrow> ([], Inl (AttributeError ''is_staff''))
                     | Some u \<Rightarrow>
                         if is_staff u \<or> is_superuser u then ([], Inr True)
                         else ([Call Wrapped (func_name func)],
                               Inr (func_body func args kwds))))))"

section \<open>What a bound field records and what one entry reports\<close>

text \<open>
  The entry that \<^verbatim>\<open>bind\<close> leaves in the map for an action when neither mode is set:
  the names of the methods the model class has, and no entry when it has neither.
\<close>

definition entry_for :: "model_class \<Rightarrow> string \<Rightarrow> method_names option" where
  "entry_for mc act =
     (if hasattr (class_attrs mc) (global_method_name act) then
        Some \<lparr>mn_global = Some (global_method_name act),
              mn_object = (if hasattr (class_attrs mc) (object_method_name act)
                           then Some (object_method_name act) else None)\<rparr>
      else if hasattr (class_attrs mc) (object_method_name act) then
        Some \<lparr>mn_global = None, mn_object = Some (object_method_name act)\<rparr>
      else None)"

text \<open>
  The value and the calls that one entry of the map contributes to a run of
  \<^verbatim>\<open>to_representation\<close>, for a model class with the attributes \<open>mtbl\<close> and an
  instance \<open>val\<close>; \<open>resolvable\<close> says that the recorded names resolve on them.
\<close>

definition entry_value :: "attr_table \<Rightarrow> attr_table \<Rightarrow> request \<Rightarrow> method_names \<Rightarrow> bool option" where
  "entry_value mtbl val req mn =
     (case mn_global mn of
        Some gn \<Rightarrow>
          (case mtbl gn of
             None \<Rightarrow> None
           | Some g \<Rightarrow>
               if g req then
                 (case mn_object mn of
                    Some on \<Rightarrow> (case val on of Some ob \<Rightarrow> Some (ob req) | None \<Rightarrow> None)
                  | None \<Rightarrow> Some True)
               else Some False)
      | None \<Rightarrow>
          (case mn_object mn of
             Some on \<Rightarrow> (case val on of Some ob \<Rightarrow> Some (ob req) | None \<Rightarrow> None)
           | None \<Rightarrow> None))"

definition entry_trace :: "attr_table \<Rightarrow> request \<Rightarrow> method_names \<Rightarrow> event list" where
  "entry_trace mtbl req mn =
     (case mn_global mn of
        Some gn \<Rightarrow>
          Call OnModel gn #
            (if (case mtbl gn of Some g \<Rightarrow> g req | None \<Rightarrow> False) then
               (case mn_object mn of Some on \<Rightarrow> [Call OnObject on] | None \<Rightarrow> [])
             else [])
      | None \<Rightarrow> (case mn_object mn of Some on \<Rightarrow> [Call OnObject on] | None \<Rightarrow> []))"

definition resolvable :: "attr_table \<Rightarrow> attr_table \<Rightarrow> method_names \<Rightarrow> bool" where
  "resolvable mtbl val mn =
     ((case mn_global mn of Some gn \<Rightarrow> hasattr mtbl gn | None \<Rightarrow> True)
      \<and> (case mn_object mn of Some on \<Rightarrow> hasattr val on | None \<Rightarrow> True))"

section \<open>Fixtures, after the repository's tests\<close>

definition attrs_of :: "(string \<times> bool) list \<Rightarrow> attr_table" where
  "attrs_of tbl = (\<lambda>name. map_option (\<lambda>b _. b) (map_of tbl name))"

definition test_request :: "string \<Rightarrow> request" where
  "test_request m = \<lparr>http_method = m, user = Some \<lparr>is_staff = False, is_superuser = False\<rparr>\<rparr>"

definition staff_request :: "string \<Rightarrow> request" where
  "staff_request m = \<lparr>http_method = m, user = Some \<lparr>is_staff = True, is_superuser = False\<rparr>\<rparr>"

definition test_model :: "(string \<times> bool) list \<Rightarrow> model_class" where
  "test_model tbl = \<lparr>class_str = ''TestModel'', class_attrs = attrs_of tbl\<rparr>"

definition test_serializer :: "model_class option \<Rightarrow> serializer" where
  "test_serializer m =
     \<lparr>serializer_class_name = ''TestSerializer'', meta_model = m,
      context_request = Some (test_request ''GET'')\<rparr>"

definition test_view :: "string option \<Rightarrow> model_class option \<Rightarrow> gate list \<Rightarrow> string list \<Rightarrow> view" where
  "test_view a m ps kw =
     \<lparr>view_class_name = ''TestViewSet'', action = a, serializer_class = test_serializer m,
      permission_classes = ps, lookup_field = ''pk'', kwargs = kw\<rparr>"

definition test_filter_backend :: "bool \<Rightarrow> nat list filter_backend" where
  "test_filter_backend routing =
     \<lparr>action_routing = routing,
      filter_methods =
        [''filter_list_queryset'' \<mapsto> (\<lambda>req queryset vw. []),
         ''filter_custom_action1_queryset'' \<mapsto> (\<lambda>req queryset vw. rev queryset)]\<rparr>"

definition wrapped_object_read :: pyfunc where
  "wrapped_object_read =
     \<lparr>func_name = ''has_object_read_permission'', func_body = (\<lambda>args kwds. False)\<rparr>"

definition wrapped_global_read :: pyfunc where
  "wrapped_global_read =
     \<lparr>func_name = ''has_read_permission'', func_body = (\<lambda>args kwds. False)\<rparr>"

definition wrapped_edit_object :: pyfunc where
  "wrapped_edit_object =
     \<lparr>func_name = ''has_edit_object_permission'', func_body = (\<lambda>args kwds. False)\<rparr>"

lemmas fixture_defs = attrs_of_def test_request_def staff_request_def test_model_def
  test_serializer_def test_view_def

section \<open>The gate: specific and general resolution\<close>

text \<open>
  Claim C1. Let the gate resolve the view's action to \<open>A\<close> (\<^verbatim>\<open>_get_action\<close> of
  \<^verbatim>\<open>view.action\<close>). With global checks enabled and a model class that defines
  \<^verbatim>\<open>has_A_permission\<close>, \<^verbatim>\<open>has_permission\<close> returns exactly what that method returns on
  the request, and the whole run is one probe and one call of that method and nothing
  else: the general methods \<^verbatim>\<open>has_read_permission\<close> and \<^verbatim>\<open>has_write_permission\<close> are
  not consulted, whether the model class has them or not. With object checks enabled,
  \<^verbatim>\<open>has_object_permission\<close> does the same with \<^verbatim>\<open>has_object_A_permission\<close> on the
  object.
\<close>

theorem specific_action_authoritative:
  assumes "action vw = Some a" and "A = get_action self a"
  shows "(global_permissions self \<longrightarrow> meta_model (serializer_class vw) = Some mc \<longrightarrow>
            class_attrs mc (global_method_name A) = Some meth \<longrightarrow>
            has_permission self req vw =
              ([Probe OnModel (global_method_name A), Call OnModel (global_method_name A)],
               Inr (meth req)))
       \<and> (object_permissions self \<longrightarrow> obj (object_method_name A) = Some ometh \<longrightarrow>
            has_object_permission self req vw obj =
              ([Probe OnObject (object_method_name A), Call OnObject (object_method_name A)],
               Inr (ometh req)))"
  using assms by (simp add: has_permission_def has_object_permission_def Let_def)

theorem specific_action_authoritative_witness:
  "has_permission DRYPermissions (test_request ''GET'')
     (test_view (Some ''retrieve'')
        (Some (test_model [(''has_retrieve_permission'', False),
                           (''has_read_permission'', True)]))
        [] [])
   = ([Probe OnModel ''has_retrieve_permission'', Call OnModel ''has_retrieve_permission''],
      Inr False)
   \<and> has_object_permission DRYPermissions (test_request ''GET'')
     (test_view (Some ''retrieve'') None [] [])
     (attrs_of [(''has_object_retrieve_permission'', True),
                (''has_object_read_permission'', False)])
   = ([Probe OnObject ''has_object_retrieve_permission'',
       Call OnObject ''has_object_retrieve_permission''], Inr True)"
  using specific_action_authoritative
    [where vw = "test_view (Some ''retrieve'')
        (Some (test_model [(''has_retrieve_permission'', False),
                           (''has_read_permission'', True)])) [] []"
       and a = "''retrieve''" and A = "''retrieve''" and self = DRYPermissions
       and mc = "test_model [(''has_retrieve_permission'', False),
                             (''has_read_permission'', True)]"
       and meth = "\<lambda>_. False" and req = "test_request ''GET''"]
    specific_action_authoritative
    [where vw = "test_view (Some ''retrieve'') None [] []"
       and a = "''retrieve''" and A = "''retrieve''" and self = DRYPermissions
       and req = "test_request ''GET''"
       and obj = "attrs_of [(''has_object_retrieve_permission'', True),
                            (''has_object_read_permission'', False)]"
       and ometh = "\<lambda>_. True"]
  by (simp add: fixture_defs DRYPermissions_def get_action_def global_method_name_def
        object_method_name_def)

text \<open>
  Claim C3. Let the gate resolve the view's action to \<open>A\<close>. With global checks enabled
  and a model class that lacks \<^verbatim>\<open>has_A_permission\<close>, a safe HTTP method makes
  \<^verbatim>\<open>has_permission\<close> return \<^verbatim>\<open>has_read_permission(request)\<close>, and raise an assertion
  error with the configuration message when the model class has no
  \<^verbatim>\<open>has_read_permission\<close>; an unsafe method does the same with
  \<^verbatim>\<open>has_write_permission\<close>. \<^verbatim>\<open>has_object_permission\<close> behaves the same way with
  \<^verbatim>\<open>has_object_read_permission\<close> and \<^verbatim>\<open>has_object_write_permission\<close> on the object.
\<close>

theorem general_fallback:
  assumes "action vw = Some a" and "A = get_action self a"
  shows "(global_permissions self \<longrightarrow> meta_model (serializer_class vw) = Some mc \<longrightarrow>
            class_attrs mc (global_method_name A) = None \<longrightarrow>
            has_permission self req vw =
              (if http_method req \<in> set SAFE_METHODS then
                 (case class_attrs mc ''has_read_permission'' of
                    Some meth \<Rightarrow>
                      ([Probe OnModel (global_method_name A),
                        Probe OnModel ''has_read_permission'',
                        Call OnModel ''has_read_permission''], Inr (meth req))
                  | None \<Rightarrow>
                      ([Probe OnModel (global_method_name A),
                        Probe OnModel ''has_read_permission''],
                       Inl (AssertionError
                         (get_error_message (class_str mc) ''has_read_permission''
                            (Some (global_method_name A))))))
               else
                 (case class_attrs mc ''has_write_permission'' of
                    Some meth \<Rightarrow>
                      ([Probe OnModel (global_method_name A),
                        Probe OnModel ''has_write_permission'',
                        Call OnModel ''has_write_permission''], Inr (meth req))
                  | None \<Rightarrow>
                      ([Probe OnModel (global_method_name A),
                        Probe OnModel ''has_write_permission''],
                       Inl (AssertionError
                         (get_error_message (class_str mc) ''has_write_permission''
                            (Some (global_method_name A))))))))
       \<and> (object_permissions self \<longrightarrow> obj (object_method_name A) = None \<longrightarrow>
            has_object_permission self req vw obj =
              (if http_method req \<in> set SAFE_METHODS then
                 (case obj ''has_object_read_permission'' of
                    Some meth \<Rightarrow>
                      ([Probe OnObject (object_method_name A),
                        Probe OnObject ''has_object_read_permission'',
                        Call OnObject ''has_object_read_permission''], Inr (meth req))
                  | None \<Rightarrow>
                      ([Probe OnObject (object_method_name A),
                        Probe OnObject ''has_object_read_permission''],
                       Inl (AssertionError
                         (get_error_message (model_str (meta_model (serializer_class vw)))
                            ''has_object_read_permission'' (Some (object_method_name A))))))
               else
                 (case obj ''has_object_write_permission'' of
                    Some meth \<Rightarrow>
                      ([Probe OnObject (object_method_name A),
                        Probe OnObject ''has_object_write_permission'',
                        Call OnObject ''has_object_write_permission''], Inr (meth req))
                  | None \<Rightarrow>
                      ([Probe OnObject (object_method_name A),
                        Probe OnObject ''has_object_write_permission''],
                       Inl (AssertionError
                         (get_error_message (model_str (meta_model (serializer_class vw)))
                            ''has_object_write_permission''
                            (Some (object_method_name A))))))))"
  using assms
  by (simp add: has_permission_def has_object_permission_def Let_def split: option.split)

theorem general_fallback_witness:
  "has_permission DRYPermissions (test_request ''GET'')
     (test_view (Some ''list'') (Some (test_model [(''has_read_permission'', True)])) [] [])
   = ([Probe OnModel ''has_list_permission'', Probe OnModel ''has_read_permission'',
       Call OnModel ''has_read_permission''], Inr True)
   \<and> has_object_permission DRYPermissions (test_request ''POST'')
     (test_view (Some ''create'') (Some (test_model [])) [] [])
     (attrs_of [(''has_object_read_permission'', True)])
   = ([Probe OnObject ''has_object_create_permission'',
       Probe OnObject ''has_object_write_permission''],
      Inl (AssertionError
        (get_error_message ''TestModel'' ''has_object_write_permission''
           (Some ''has_object_create_permission''))))"
  using general_fallback
    [where vw = "test_view (Some ''list'') (Some (test_model [(''has_read_permission'', True)])) [] []"
       and a = "''list''" and A = "''list''" and self = DRYPermissions
       and mc = "test_model [(''has_read_permission'', True)]"
       and req = "test_request ''GET''"]
    general_fallback
    [where vw = "test_view (Some ''create'') (Some (test_model [])) [] []"
       and a = "''create''" and A = "''create''" and self = DRYPermissions
       and req = "test_request ''POST''"
       and obj = "attrs_of [(''has_object_read_permission'', True)]"]
  by (simp add: fixture_defs DRYPermissions_def get_action_def global_method_name_def
        object_method_name_def SAFE_METHODS_def model_str_def)

text \<open>
  Claim C10. For a view object without the attribute \<^verbatim>\<open>action\<close>, both checks go
  straight to the general methods chosen by the safety of the HTTP method: the trace
  holds the probe (and the call) of the read or write method only, so no specific
  method is looked up or called, whatever the model class or the object defines.
\<close>

theorem no_action_attribute:
  assumes "action vw = None"
  shows "(global_permissions self \<longrightarrow> meta_model (serializer_class vw) = Some mc \<longrightarrow>
            has_permission self req vw =
              (if http_method req \<in> set SAFE_METHODS then
                 (case class_attrs mc ''has_read_permission'' of
                    Some meth \<Rightarrow>
                      ([Probe OnModel ''has_read_permission'',
                        Call OnModel ''has_read_permission''], Inr (meth req))
                  | None \<Rightarrow>
                      ([Probe OnModel ''has_read_permission''],
                       Inl (AssertionError
                         (get_error_message (class_str mc) ''has_read_permission'' None))))
               else
                 (case class_attrs mc ''has_write_permission'' of
                    Some meth \<Rightarrow>
                      ([Probe OnModel ''has_write_permission'',
                        Call OnModel ''has_write_permission''], Inr (meth req))
                  | None \<Rightarrow>
                      ([Probe OnModel ''has_write_permission''],
                       Inl (AssertionError
                         (get_error_message (class_str mc) ''has_write_permission'' None))))))
       \<and> (object_permissions self \<longrightarrow>
            has_object_permission self req vw obj =
              (if http_method req \<in> set SAFE_METHODS then
                 (case obj ''has_object_read_permission'' of
                    Some meth \<Rightarrow>
                      ([Probe OnObject ''has_object_read_permission'',
                        Call OnObject ''has_object_read_permission''], Inr (meth req))
                  | None \<Rightarrow>
                      ([Probe OnObject ''has_object_read_permission''],
                       Inl (AssertionError
                         (get_error_message (model_str (meta_model (serializer_class vw)))
                            ''has_object_read_permission'' None))))
               else
                 (case obj ''has_object_write_permission'' of
                    Some meth \<Rightarrow>
                      ([Probe OnObject ''has_object_write_permission'',
                        Call OnObject ''has_object_write_permission''], Inr (meth req))
                  | None \<Rightarrow>
                      ([Probe OnObject ''has_object_write_permission''],
                       Inl (AssertionError
                         (get_error_message (model_str (meta_model (serializer_class vw)))
                            ''has_object_write_permission'' None))))))"
  using assms
  by (simp add: has_permission_def has_object_permission_def Let_def split: option.split)

theorem no_action_attribute_witness:
  "has_permission DRYPermissions (test_request ''GET'')
     (test_view None
        (Some (test_model [(''has_retrieve_permission'', False), (''has_read_permission'', True)]))
        [] [])
   = ([Probe OnModel ''has_read_permission'', Call OnModel ''has_read_permission''], Inr True)
   \<and> has_object_permission DRYPermissions (test_request ''DELETE'')
     (test_view None None [] [])
     (attrs_of [(''has_object_destroy_permission'', True),
                (''has_object_write_permission'', False)])
   = ([Probe OnObject ''has_object_write_permission'',
       Call OnObject ''has_object_write_permission''], Inr False)"
  using no_action_attribute
    [where vw = "test_view None
        (Some (test_model [(''has_retrieve_permission'', False), (''has_read_permission'', True)]))
        [] []"
       and self = DRYPermissions
       and mc = "test_model [(''has_retrieve_permission'', False), (''has_read_permission'', True)]"
       and req = "test_request ''GET''"]
    no_action_attribute
    [where vw = "test_view None None [] []" and self = DRYPermissions
       and req = "test_request ''DELETE''"
       and obj = "attrs_of [(''has_object_destroy_permission'', True),
                (''has_object_write_permission'', False)]"]
  by (simp add: fixture_defs DRYPermissions_def SAFE_METHODS_def)

text \<open>
  The traces of the two checks for a view with an action: the first event is the probe
  of the specific method, and what follows is its call or the probe (and call) of one
  general method.
\<close>

lemma has_permission_specific:
  assumes "global_permissions self" and "meta_model (serializer_class vw) = Some mc"
    and "action vw = Some a" and "n = global_method_name (get_action self a)"
    and "class_attrs mc n = Some meth"
  shows "has_permission self req vw = ([Probe OnModel n, Call OnModel n], Inr (meth req))"
  using assms by (simp add: has_permission_def Let_def)

lemma has_permission_traces:
  assumes "global_permissions self" and "meta_model (serializer_class vw) = Some mc"
    and "action vw = Some a" and "n = global_method_name (get_action self a)"
  shows "fst (has_permission self req vw) \<in>
           {[Probe OnModel n, Call OnModel n],
            [Probe OnModel n, Probe OnModel ''has_read_permission''],
            [Probe OnModel n, Probe OnModel ''has_read_permission'',
             Call OnModel ''has_read_permission''],
            [Probe OnModel n, Probe OnModel ''has_write_permission''],
            [Probe OnModel n, Probe OnModel ''has_write_permission'',
             Call OnModel ''has_write_permission'']}"
  using assms by (simp add: has_permission_def Let_def split: option.split)

lemma has_object_permission_specific:
  assumes "object_permissions self"
    and "action vw = Some a" and "n = object_method_name (get_action self a)"
    and "obj n = Some meth"
  shows "has_object_permission self req vw obj
           = ([Probe OnObject n, Call OnObject n], Inr (meth req))"
  using assms by (simp add: has_object_permission_def Let_def)

lemma has_object_permission_traces:
  assumes "object_permissions self"
    and "action vw = Some a" and "n = object_method_name (get_action self a)"
  shows "fst (has_object_permission self req vw obj) \<in>
           {[Probe OnObject n, Call OnObject n],
            [Probe OnObject n, Probe OnObject ''has_object_read_permission''],
            [Probe OnObject n, Probe OnObject ''has_object_read_permission'',
             Call OnObject ''has_object_read_permission''],
            [Probe OnObject n, Probe OnObject ''has_object_write_permission''],
            [Probe OnObject n, Probe OnObject ''has_object_write_permission'',
             Call OnObject ''has_object_write_permission'']}"
  using assms by (simp add: has_object_permission_def Let_def split: option.split)

lemma traces_head:
  assumes "tr \<in> {[p, c], [p, r1], [p, r1, r2], [p, w1], [p, w1, w2]}"
  shows "\<exists>rest. tr = p # rest"
  using assms by auto

lemma traces_avoid:
  assumes "tr \<in> {[p, c], [p, r1], [p, r1, r2], [p, w1], [p, w1, w2]}"
    and "e \<noteq> p" and "e \<noteq> c" and "e \<noteq> r1" and "e \<noteq> r2" and "e \<noteq> w1" and "e \<noteq> w2"
  shows "e \<notin> set tr"
  using assms by auto

lemma gate_looks_up_global:
  assumes glob: "global_permissions self"
    and model: "meta_model (serializer_class vw) = Some mc"
    and act: "action vw = Some a"
    and n: "n = global_method_name (get_action self a)"
    and other: "m \<noteq> n" "m \<noteq> ''has_read_permission''" "m \<noteq> ''has_write_permission''"
  shows "(\<exists>rest. fst (has_permission self req vw) = Probe OnModel n # rest)
       \<and> (\<forall>meth. class_attrs mc n = Some meth \<longrightarrow>
              has_permission self req vw
                = ([Probe OnModel n, Call OnModel n], Inr (meth req)))
       \<and> Probe OnModel m \<notin> set (fst (has_permission self req vw))
       \<and> Call OnModel m \<notin> set (fst (has_permission self req vw))"
proof (intro conjI allI impI)
  note tr = has_permission_traces[OF glob model act n, of req]
  show "\<exists>rest. fst (has_permission self req vw) = Probe OnModel n # rest"
    by (rule traces_head[OF tr])
  show "Probe OnModel m \<notin> set (fst (has_permission self req vw))"
    by (rule traces_avoid[OF tr]) (simp_all add: other)
  show "Call OnModel m \<notin> set (fst (has_permission self req vw))"
    by (rule traces_avoid[OF tr]) (simp_all add: other)
next
  fix meth
  assume "class_attrs mc n = Some meth"
  then show "has_permission self req vw
               = ([Probe OnModel n, Call OnModel n], Inr (meth req))"
    by (rule has_permission_specific[OF glob model act n])
qed

lemma gate_looks_up_object:
  assumes ob: "object_permissions self"
    and act: "action vw = Some a"
    and n: "n = object_method_name (get_action self a)"
    and other: "m \<noteq> n" "m \<noteq> ''has_object_read_permission''"
      "m \<noteq> ''has_object_write_permission''"
  shows "(\<exists>rest. fst (has_object_permission self req vw obj) = Probe OnObject n # rest)
       \<and> (\<forall>meth. obj n = Some meth \<longrightarrow>
              has_object_permission self req vw obj
                = ([Probe OnObject n, Call OnObject n], Inr (meth req)))
       \<and> Probe OnObject m \<notin> set (fst (has_object_permission self req vw obj))
       \<and> Call OnObject m \<notin> set (fst (has_object_permission self req vw obj))"
proof (intro conjI allI impI)
  note tr = has_object_permission_traces[OF ob act n, of req obj]
  show "\<exists>rest. fst (has_object_permission self req vw obj) = Probe OnObject n # rest"
    by (rule traces_head[OF tr])
  show "Probe OnObject m \<notin> set (fst (has_object_permission self req vw obj))"
    by (rule traces_avoid[OF tr]) (simp_all add: other)
  show "Call OnObject m \<notin> set (fst (has_object_permission self req vw obj))"
    by (rule traces_avoid[OF tr]) (simp_all add: other)
next
  fix meth
  assume "obj n = Some meth"
  then show "has_object_permission self req vw obj
               = ([Probe OnObject n, Call OnObject n], Inr (meth req))"
    by (rule has_object_permission_specific[OF ob act n])
qed

lemma has_permission_action_cong:
  assumes "get_action self a = get_action self b"
  shows "has_permission self req (vw\<lparr>action := Some a\<rparr>)
           = has_permission self req (vw\<lparr>action := Some b\<rparr>)"
  using assms by (simp add: has_permission_def Let_def split: option.split)

lemma has_object_permission_action_cong:
  assumes "get_action self a = get_action self b"
  shows "has_object_permission self req (vw\<lparr>action := Some a\<rparr>) obj
           = has_object_permission self req (vw\<lparr>action := Some b\<rparr>) obj"
  using assms by (simp add: has_object_permission_def Let_def split: option.split)

text \<open>
  Claim C6. With \<^verbatim>\<open>partial_update_is_update\<close> set, the action
  \<^verbatim>\<open>partial_update\<close> is resolved as \<^verbatim>\<open>update\<close>: both checks give the same result
  and the same trace for the two actions, on every model; the gate first probes
  \<^verbatim>\<open>has_update_permission\<close> (on the object, \<^verbatim>\<open>has_object_update_permission\<close>),
  returns that method's result when it exists, and never probes or calls the method
  named after \<^verbatim>\<open>partial_update\<close>. With the option unset, \<^verbatim>\<open>partial_update\<close> keeps its
  name: the gate first probes \<^verbatim>\<open>has_partial_update_permission\<close> (on the object,
  \<^verbatim>\<open>has_object_partial_update_permission\<close>), returns that method's result when it
  exists, never probes or calls the update method, and what the model class or the object
  says about the update method does not change the result. No other action is ever
  renamed.
\<close>

theorem partial_update_resolution:
  shows "(partial_update_is_update self \<longrightarrow>
            get_action self ''partial_update'' = ''update''
            \<and> has_permission self req (vw\<lparr>action := Some ''partial_update''\<rparr>)
                = has_permission self req (vw\<lparr>action := Some ''update''\<rparr>)
            \<and> has_object_permission self req (vw\<lparr>action := Some ''partial_update''\<rparr>) obj
                = has_object_permission self req (vw\<lparr>action := Some ''update''\<rparr>) obj)
       \<and> (partial_update_is_update self \<longrightarrow> action vw = Some ''partial_update'' \<longrightarrow>
            global_permissions self \<longrightarrow> meta_model (serializer_class vw) = Some mc \<longrightarrow>
            (\<exists>rest. fst (has_permission self req vw)
                      = Probe OnModel ''has_update_permission'' # rest)
            \<and> (\<forall>meth. class_attrs mc ''has_update_permission'' = Some meth \<longrightarrow>
                   has_permission self req vw =
                     ([Probe OnModel ''has_update_permission'',
                       Call OnModel ''has_update_permission''], Inr (meth req)))
            \<and> Probe OnModel ''has_partial_update_permission''
                  \<notin> set (fst (has_permission self req vw))
            \<and> Call OnModel ''has_partial_update_permission''
                  \<notin> set (fst (has_permission self req vw)))
       \<and> (partial_update_is_update self \<longrightarrow> action vw = Some ''partial_update'' \<longrightarrow>
            object_permissions self \<longrightarrow>
            (\<exists>rest. fst (has_object_permission self req vw obj)
                      = Probe OnObject ''has_object_update_permission'' # rest)
            \<and> (\<forall>meth. obj ''has_object_update_permission'' = Some meth \<longrightarrow>
                   has_object_permission self req vw obj =
                     ([Probe OnObject ''has_object_update_permission'',
                       Call OnObject ''has_object_update_permission''], Inr (meth req)))
            \<and> Probe OnObject ''has_object_partial_update_permission''
                  \<notin> set (fst (has_object_permission self req vw obj))
            \<and> Call OnObject ''has_object_partial_update_permission''
                  \<notin> set (fst (has_object_permission self req vw obj)))
       \<and> (\<not> partial_update_is_update self \<longrightarrow>
            get_action self ''partial_update'' = ''partial_update'')
       \<and> (\<not> partial_update_is_update self \<longrightarrow> action vw = Some ''partial_update'' \<longrightarrow>
            global_permissions self \<longrightarrow> meta_model (serializer_class vw) = Some mc \<longrightarrow>
            (\<exists>rest. fst (has_permission self req vw)
                      = Probe OnModel ''has_partial_update_permission'' # rest)
            \<and> (\<forall>meth. class_attrs mc ''has_partial_update_permission'' = Some meth \<longrightarrow>
                   has_permission self req vw =
                     ([Probe OnModel ''has_partial_update_permission'',
                       Call OnModel ''has_partial_update_permission''], Inr (meth req)))
            \<and> Probe OnModel ''has_update_permission''
                  \<notin> set (fst (has_permission self req vw))
            \<and> Call OnModel ''has_update_permission''
                  \<notin> set (fst (has_permission self req vw)))
       \<and> (\<not> partial_update_is_update self \<longrightarrow> action vw = Some ''partial_update'' \<longrightarrow>
            object_permissions self \<longrightarrow>
            (\<exists>rest. fst (has_object_permission self req vw obj)
                      = Probe OnObject ''has_object_partial_update_permission'' # rest)
            \<and> (\<forall>meth. obj ''has_object_partial_update_permission'' = Some meth \<longrightarrow>
                   has_object_permission self req vw obj =
                     ([Probe OnObject ''has_object_partial_update_permission'',
                       Call OnObject ''has_object_partial_update_permission''], Inr (meth req)))
            \<and> Probe OnObject ''has_object_update_permission''
                  \<notin> set (fst (has_object_permission self req vw obj))
            \<and> Call OnObject ''has_object_update_permission''
                  \<notin> set (fst (has_object_permission self req vw obj)))
       \<and> (\<not> partial_update_is_update self \<longrightarrow>
            action vw = Some ''partial_update'' \<longrightarrow>
            has_permission self req
                (vw\<lparr>serializer_class := (serializer_class vw)
                      \<lparr>meta_model := Some (mc\<lparr>class_attrs :=
                          (class_attrs mc)(''has_update_permission'' := gm)\<rparr>)\<rparr>\<rparr>)
              = has_permission self req
                  (vw\<lparr>serializer_class := (serializer_class vw)\<lparr>meta_model := Some mc\<rparr>\<rparr>)
            \<and> has_object_permission self req vw
                  (obj(''has_object_update_permission'' := om))
                = has_object_permission self req vw obj)
       \<and> (a \<noteq> ''partial_update'' \<longrightarrow> get_action self a = a)"
proof -
  have same: "partial_update_is_update self \<longrightarrow>
            get_action self ''partial_update'' = ''update''
            \<and> has_permission self req (vw\<lparr>action := Some ''partial_update''\<rparr>)
                = has_permission self req (vw\<lparr>action := Some ''update''\<rparr>)
            \<and> has_object_permission self req (vw\<lparr>action := Some ''partial_update''\<rparr>) obj
                = has_object_permission self req (vw\<lparr>action := Some ''update''\<rparr>) obj"
  proof (intro impI conjI)
    assume flag: "partial_update_is_update self"
    then show name: "get_action self ''partial_update'' = ''update''"
      by (simp add: get_action_def)
    have eq: "get_action self ''partial_update'' = get_action self ''update''"
      using flag by (simp add: get_action_def)
    show "has_permission self req (vw\<lparr>action := Some ''partial_update''\<rparr>)
            = has_permission self req (vw\<lparr>action := Some ''update''\<rparr>)"
      by (rule has_permission_action_cong[OF eq])
    show "has_object_permission self req (vw\<lparr>action := Some ''partial_update''\<rparr>) obj
            = has_object_permission self req (vw\<lparr>action := Some ''update''\<rparr>) obj"
      by (rule has_object_permission_action_cong[OF eq])
  qed
  have on_global: "partial_update_is_update self \<longrightarrow> action vw = Some ''partial_update'' \<longrightarrow>
            global_permissions self \<longrightarrow> meta_model (serializer_class vw) = Some mc \<longrightarrow>
            (\<exists>rest. fst (has_permission self req vw)
                      = Probe OnModel ''has_update_permission'' # rest)
            \<and> (\<forall>meth. class_attrs mc ''has_update_permission'' = Some meth \<longrightarrow>
                   has_permission self req vw =
                     ([Probe OnModel ''has_update_permission'',
                       Call OnModel ''has_update_permission''], Inr (meth req)))
            \<and> Probe OnModel ''has_partial_update_permission''
                  \<notin> set (fst (has_permission self req vw))
            \<and> Call OnModel ''has_partial_update_permission''
                  \<notin> set (fst (has_permission self req vw))"
  proof (intro impI)
    assume flag: "partial_update_is_update self"
      and act: "action vw = Some ''partial_update''"
      and glob: "global_permissions self"
      and model: "meta_model (serializer_class vw) = Some mc"
    have n: "''has_update_permission'' = global_method_name (get_action self ''partial_update'')"
      using flag by (simp add: get_action_def global_method_name_def)
    show "(\<exists>rest. fst (has_permission self req vw)
                      = Probe OnModel ''has_update_permission'' # rest)
            \<and> (\<forall>meth. class_attrs mc ''has_update_permission'' = Some meth \<longrightarrow>
                   has_permission self req vw =
                     ([Probe OnModel ''has_update_permission'',
                       Call OnModel ''has_update_permission''], Inr (meth req)))
            \<and> Probe OnModel ''has_partial_update_permission''
                  \<notin> set (fst (has_permission self req vw))
            \<and> Call OnModel ''has_partial_update_permission''
                  \<notin> set (fst (has_permission self req vw))"
      by (rule gate_looks_up_global[OF glob model act n]) simp_all
  qed
  have on_object: "partial_update_is_update self \<longrightarrow> action vw = Some ''partial_update'' \<longrightarrow>
            object_permissions self \<longrightarrow>
            (\<exists>rest. fst (has_object_permission self req vw obj)
                      = Probe OnObject ''has_object_update_permission'' # rest)
            \<and> (\<forall>meth. obj ''has_object_update_permission'' = Some meth \<longrightarrow>
                   has_object_permission self req vw obj =
                     ([Probe OnObject ''has_object_update_permission'',
                       Call OnObject ''has_object_update_permission''], Inr (meth req)))
            \<and> Probe OnObject ''has_object_partial_update_permission''
                  \<notin> set (fst (has_object_permission self req vw obj))
            \<and> Call OnObject ''has_object_partial_update_permission''
                  \<notin> set (fst (has_object_permission self req vw obj))"
  proof (intro impI)
    assume flag: "partial_update_is_update self"
      and act: "action vw = Some ''partial_update''"
      and ob: "object_permissions self"
    have n: "''has_object_update_permission''
               = object_method_name (get_action self ''partial_update'')"
      using flag by (simp add: get_action_def object_method_name_def)
    show "(\<exists>rest. fst (has_object_permission self req vw obj)
                      = Probe OnObject ''has_object_update_permission'' # rest)
            \<and> (\<forall>meth. obj ''has_object_update_permission'' = Some meth \<longrightarrow>
                   has_object_permission self req vw obj =
                     ([Probe OnObject ''has_object_update_permission'',
                       Call OnObject ''has_object_update_permission''], Inr (meth req)))
            \<and> Probe OnObject ''has_object_partial_update_permission''
                  \<notin> set (fst (has_object_permission self req vw obj))
            \<and> Call OnObject ''has_object_partial_update_permission''
                  \<notin> set (fst (has_object_permission self req vw obj))"
      by (rule gate_looks_up_object[OF ob act n]) simp_all
  qed
  have off_name: "\<not> partial_update_is_update self \<longrightarrow>
            get_action self ''partial_update'' = ''partial_update''"
    by (simp add: get_action_def)
  have off_global: "\<not> partial_update_is_update self \<longrightarrow> action vw = Some ''partial_update'' \<longrightarrow>
            global_permissions self \<longrightarrow> meta_model (serializer_class vw) = Some mc \<longrightarrow>
            (\<exists>rest. fst (has_permission self req vw)
                      = Probe OnModel ''has_partial_update_permission'' # rest)
            \<and> (\<forall>meth. class_attrs mc ''has_partial_update_permission'' = Some meth \<longrightarrow>
                   has_permission self req vw =
                     ([Probe OnModel ''has_partial_update_permission'',
                       Call OnModel ''has_partial_update_permission''], Inr (meth req)))
            \<and> Probe OnModel ''has_update_permission''
                  \<notin> set (fst (has_permission self req vw))
            \<and> Call OnModel ''has_update_permission''
                  \<notin> set (fst (has_permission self req vw))"
  proof (intro impI)
    assume flag: "\<not> partial_update_is_update self"
      and act: "action vw = Some ''partial_update''"
      and glob: "global_permissions self"
      and model: "meta_model (serializer_class vw) = Some mc"
    have n: "''has_partial_update_permission''
               = global_method_name (get_action self ''partial_update'')"
      using flag by (simp add: get_action_def global_method_name_def)
    show "(\<exists>rest. fst (has_permission self req vw)
                      = Probe OnModel ''has_partial_update_permission'' # rest)
            \<and> (\<forall>meth. class_attrs mc ''has_partial_update_permission'' = Some meth \<longrightarrow>
                   has_permission self req vw =
                     ([Probe OnModel ''has_partial_update_permission'',
                       Call OnModel ''has_partial_update_permission''], Inr (meth req)))
            \<and> Probe OnModel ''has_update_permission''
                  \<notin> set (fst (has_permission self req vw))
            \<and> Call OnModel ''has_update_permission''
                  \<notin> set (fst (has_permission self req vw))"
      by (rule gate_looks_up_global[OF glob model act n]) simp_all
  qed
  have off_object: "\<not> partial_update_is_update self \<longrightarrow> action vw = Some ''partial_update'' \<longrightarrow>
            object_permissions self \<longrightarrow>
            (\<exists>rest. fst (has_object_permission self req vw obj)
                      = Probe OnObject ''has_object_partial_update_permission'' # rest)
            \<and> (\<forall>meth. obj ''has_object_partial_update_permission'' = Some meth \<longrightarrow>
                   has_object_permission self req vw obj =
                     ([Probe OnObject ''has_object_partial_update_permission'',
                       Call OnObject ''has_object_partial_update_permission''], Inr (meth req)))
            \<and> Probe OnObject ''has_object_update_permission''
                  \<notin> set (fst (has_object_permission self req vw obj))
            \<and> Call OnObject ''has_object_update_permission''
                  \<notin> set (fst (has_object_permission self req vw obj))"
  proof (intro impI)
    assume flag: "\<not> partial_update_is_update self"
      and act: "action vw = Some ''partial_update''"
      and ob: "object_permissions self"
    have n: "''has_object_partial_update_permission''
               = object_method_name (get_action self ''partial_update'')"
      using flag by (simp add: get_action_def object_method_name_def)
    show "(\<exists>rest. fst (has_object_permission self req vw obj)
                      = Probe OnObject ''has_object_partial_update_permission'' # rest)
            \<and> (\<forall>meth. obj ''has_object_partial_update_permission'' = Some meth \<longrightarrow>
                   has_object_permission self req vw obj =
                     ([Probe OnObject ''has_object_partial_update_permission'',
                       Call OnObject ''has_object_partial_update_permission''], Inr (meth req)))
            \<and> Probe OnObject ''has_object_update_permission''
                  \<notin> set (fst (has_object_permission self req vw obj))
            \<and> Call OnObject ''has_object_update_permission''
                  \<notin> set (fst (has_object_permission self req vw obj))"
      by (rule gate_looks_up_object[OF ob act n]) simp_all
  qed
  have indep: "\<not> partial_update_is_update self \<longrightarrow>
            action vw = Some ''partial_update'' \<longrightarrow>
            has_permission self req
                (vw\<lparr>serializer_class := (serializer_class vw)
                      \<lparr>meta_model := Some (mc\<lparr>class_attrs :=
                          (class_attrs mc)(''has_update_permission'' := gm)\<rparr>)\<rparr>\<rparr>)
              = has_permission self req
                  (vw\<lparr>serializer_class := (serializer_class vw)\<lparr>meta_model := Some mc\<rparr>\<rparr>)
            \<and> has_object_permission self req vw
                  (obj(''has_object_update_permission'' := om))
                = has_object_permission self req vw obj"
    by (simp add: get_action_def has_permission_def has_object_permission_def Let_def
          global_method_name_def object_method_name_def split: option.split)
  have others: "a \<noteq> ''partial_update'' \<longrightarrow> get_action self a = a"
    by (simp add: get_action_def)
  show ?thesis
    by (intro conjI) (fact same, fact on_global, fact on_object, fact off_name,
        fact off_global, fact off_object, fact indep, fact others)
qed

theorem partial_update_resolution_witness:
  "get_action DRYPermissions ''partial_update'' = ''update''
   \<and> has_permission DRYPermissions (test_request ''PATCH'')
       (test_view (Some ''partial_update'')
          (Some (test_model [(''has_update_permission'', True),
                             (''has_partial_update_permission'', False)])) [] [])
     = ([Probe OnModel ''has_update_permission'', Call OnModel ''has_update_permission''],
        Inr True)
   \<and> get_action (DRYPermissions\<lparr>partial_update_is_update := False\<rparr>) ''partial_update''
       = ''partial_update''
   \<and> has_permission (DRYPermissions\<lparr>partial_update_is_update := False\<rparr>)
       (test_request ''PATCH'')
       (test_view (Some ''partial_update'')
          (Some (test_model [(''has_update_permission'', True),
                             (''has_partial_update_permission'', False)])) [] [])
     = ([Probe OnModel ''has_partial_update_permission'',
         Call OnModel ''has_partial_update_permission''], Inr False)
   \<and> has_object_permission (DRYPermissions\<lparr>partial_update_is_update := False\<rparr>)
       (test_request ''PATCH'')
       (test_view (Some ''partial_update'')
          (Some (test_model [(''has_update_permission'', True),
                             (''has_partial_update_permission'', False)])) [] [])
       (attrs_of [(''has_object_update_permission'', False),
                  (''has_object_partial_update_permission'', True)])
     = ([Probe OnObject ''has_object_partial_update_permission'',
         Call OnObject ''has_object_partial_update_permission''], Inr True)
   \<and> get_action DRYPermissions ''update'' = ''update''"
proof -
  let ?mc = "test_model [(''has_update_permission'', True),
                         (''has_partial_update_permission'', False)]"
  let ?vw = "test_view (Some ''partial_update'') (Some ?mc) [] []"
  let ?req = "test_request ''PATCH''"
  let ?obj = "attrs_of [(''has_object_update_permission'', False),
                        (''has_object_partial_update_permission'', True)]"
  let ?off = "DRYPermissions\<lparr>partial_update_is_update := False\<rparr>"
  have act: "action ?vw = Some ''partial_update''"
    by (simp add: test_view_def)
  have model: "meta_model (serializer_class ?vw) = Some ?mc"
    by (simp add: test_view_def test_serializer_def)
  have on: "partial_update_is_update DRYPermissions" "global_permissions DRYPermissions"
    by (simp_all add: DRYPermissions_def)
  have off: "\<not> partial_update_is_update ?off" "global_permissions ?off"
    "object_permissions ?off"
    by (simp_all add: DRYPermissions_def)
  have upd: "class_attrs ?mc ''has_update_permission'' = Some (\<lambda>_. True)"
    by (simp add: test_model_def attrs_of_def)
  have part: "class_attrs ?mc ''has_partial_update_permission'' = Some (\<lambda>_. False)"
    by (simp add: test_model_def attrs_of_def)
  have opart: "?obj ''has_object_partial_update_permission'' = Some (\<lambda>_. True)"
    by (simp add: attrs_of_def)
  note at_on = partial_update_resolution
    [where self = DRYPermissions and req = ?req and vw = ?vw and mc = ?mc
       and obj = ?obj and a = "''update''" and gm = None and om = None]
  note at_off = partial_update_resolution
    [where self = ?off and req = ?req and vw = ?vw and mc = ?mc
       and obj = ?obj and a = "''update''" and gm = None and om = None]
  have c1: "get_action DRYPermissions ''partial_update'' = ''update''"
    using at_on[THEN conjunct1] on(1) by blast
  have "\<forall>meth. class_attrs ?mc ''has_update_permission'' = Some meth \<longrightarrow>
          has_permission DRYPermissions ?req ?vw =
            ([Probe OnModel ''has_update_permission'',
              Call OnModel ''has_update_permission''], Inr (meth ?req))"
    using at_on[THEN conjunct2, THEN conjunct1] on act model by blast
  from this[rule_format, OF upd]
  have c2: "has_permission DRYPermissions ?req ?vw =
              ([Probe OnModel ''has_update_permission'',
                Call OnModel ''has_update_permission''], Inr True)"
    by simp
  have c3: "get_action ?off ''partial_update'' = ''partial_update''"
    using at_off[THEN conjunct2, THEN conjunct2, THEN conjunct2, THEN conjunct1] off(1)
    by blast
  have "\<forall>meth. class_attrs ?mc ''has_partial_update_permission'' = Some meth \<longrightarrow>
          has_permission ?off ?req ?vw =
            ([Probe OnModel ''has_partial_update_permission'',
              Call OnModel ''has_partial_update_permission''], Inr (meth ?req))"
    using at_off[THEN conjunct2, THEN conjunct2, THEN conjunct2, THEN conjunct2,
        THEN conjunct1] off act model
    by blast
  from this[rule_format, OF part]
  have c4: "has_permission ?off ?req ?vw =
              ([Probe OnModel ''has_partial_update_permission'',
                Call OnModel ''has_partial_update_permission''], Inr False)"
    by simp
  have "\<forall>meth. ?obj ''has_object_partial_update_permission'' = Some meth \<longrightarrow>
          has_object_permission ?off ?req ?vw ?obj =
            ([Probe OnObject ''has_object_partial_update_permission'',
              Call OnObject ''has_object_partial_update_permission''], Inr (meth ?req))"
    using at_off[THEN conjunct2, THEN conjunct2, THEN conjunct2, THEN conjunct2,
        THEN conjunct2, THEN conjunct1] off act
    by blast
  from this[rule_format, OF opart]
  have c5: "has_object_permission ?off ?req ?vw ?obj =
              ([Probe OnObject ''has_object_partial_update_permission'',
                Call OnObject ''has_object_partial_update_permission''], Inr True)"
    by simp
  have c6: "get_action DRYPermissions ''update'' = ''update''"
    using at_on[THEN conjunct2, THEN conjunct2, THEN conjunct2, THEN conjunct2,
        THEN conjunct2, THEN conjunct2, THEN conjunct2]
    by simp
  from c1 c2 c3 c4 c5 c6 show ?thesis
    by (intro conjI)
qed

section \<open>The gate: composition of the global and the object check\<close>

lemma global_checks_single:
  "global_checks [p] req vw = has_permission p req vw"
  by (cases "has_permission p req vw") (auto split: sum.split)

lemma object_checks_single:
  "object_checks [p] req vw obj = has_object_permission p req vw obj"
  by (cases "has_object_permission p req vw obj") (auto split: sum.split)

text \<open>
  Claim C2. For a view whose only permission is the gate \<open>self\<close>, the overall decision
  (\<^verbatim>\<open>has_permission\<close>, then \<^verbatim>\<open>has_object_permission\<close>) is the conjunction of the two
  results when both checks are enabled. With global checks disabled \<^verbatim>\<open>has_permission\<close>
  returns true at once, without probing anything, and the overall outcome is that of the
  object check; with object checks disabled \<^verbatim>\<open>has_object_permission\<close> returns true at
  once and the overall outcome is that of the global check.
\<close>

theorem composition:
  assumes "permission_classes vw = [self]"
  shows "(global_permissions self \<longrightarrow> object_permissions self \<longrightarrow>
            has_permission self req vw = (t1, Inr g) \<longrightarrow>
            has_object_permission self req vw obj = (t2, Inr ob) \<longrightarrow>
            snd (dummy_check_permission vw req obj) = Inr (g \<and> ob))
       \<and> (\<not> global_permissions self \<longrightarrow>
            has_permission self req vw = ([], Inr True)
            \<and> dummy_check_permission vw req obj = has_object_permission self req vw obj)
       \<and> (\<not> object_permissions self \<longrightarrow>
            has_object_permission self req vw obj = ([], Inr True)
            \<and> dummy_check_permission vw req obj = has_permission self req vw)"
proof (intro conjI impI)
  assume "has_permission self req vw = (t1, Inr g)"
    and "has_object_permission self req vw obj = (t2, Inr ob)"
  then show "snd (dummy_check_permission vw req obj) = Inr (g \<and> ob)"
    using assms
    by (simp add: dummy_check_permission_def global_checks_single object_checks_single)
next
  assume off: "\<not> global_permissions self"
  then show g: "has_permission self req vw = ([], Inr True)"
    by (simp add: has_permission_def)
  show "dummy_check_permission vw req obj = has_object_permission self req vw obj"
    using assms g
    by (cases "has_object_permission self req vw obj")
       (auto simp add: dummy_check_permission_def global_checks_single object_checks_single
          split: sum.split)
next
  assume off: "\<not> object_permissions self"
  then show ob: "has_object_permission self req vw obj = ([], Inr True)"
    by (simp add: has_object_permission_def)
  show "dummy_check_permission vw req obj = has_permission self req vw"
    using assms ob
    by (cases "has_permission self req vw")
       (auto simp add: dummy_check_permission_def global_checks_single object_checks_single
          split: sum.split)
qed

theorem composition_witness:
  "snd (dummy_check_permission
     (test_view (Some ''retrieve'') (Some (test_model [(''has_read_permission'', True)]))
        [DRYPermissions] [])
     (test_request ''GET'') (attrs_of [(''has_object_read_permission'', False)]))
   = Inr False
   \<and> dummy_check_permission
     (test_view (Some ''retrieve'') (Some (test_model [(''has_read_permission'', False)]))
        [DRYObjectPermissions] [])
     (test_request ''GET'') (attrs_of [(''has_object_read_permission'', True)])
   = ([Probe OnObject ''has_object_retrieve_permission'',
       Probe OnObject ''has_object_read_permission'',
       Call OnObject ''has_object_read_permission''], Inr True)
   \<and> dummy_check_permission
     (test_view (Some ''retrieve'') (Some (test_model [(''has_read_permission'', True)]))
        [DRYGlobalPermissions] [])
     (test_request ''GET'') (attrs_of [(''has_object_read_permission'', False)])
   = ([Probe OnModel ''has_retrieve_permission'', Probe OnModel ''has_read_permission'',
       Call OnModel ''has_read_permission''], Inr True)"
  using composition
    [where vw = "test_view (Some ''retrieve'') (Some (test_model [(''has_read_permission'', True)]))
        [DRYPermissions] []"
       and self = DRYPermissions and req = "test_request ''GET''"
       and obj = "attrs_of [(''has_object_read_permission'', False)]"
       and ?t1.0 = "[Probe OnModel ''has_retrieve_permission'', Probe OnModel ''has_read_permission'',
                  Call OnModel ''has_read_permission'']"
       and g = True
       and ?t2.0 = "[Probe OnObject ''has_object_retrieve_permission'',
                  Probe OnObject ''has_object_read_permission'',
                  Call OnObject ''has_object_read_permission'']"
       and ob = False]
    composition
    [where vw = "test_view (Some ''retrieve'') (Some (test_model [(''has_read_permission'', False)]))
        [DRYObjectPermissions] []"
       and self = DRYObjectPermissions and req = "test_request ''GET''"
       and obj = "attrs_of [(''has_object_read_permission'', True)]"]
    composition
    [where vw = "test_view (Some ''retrieve'') (Some (test_model [(''has_read_permission'', True)]))
        [DRYGlobalPermissions] []"
       and self = DRYGlobalPermissions and req = "test_request ''GET''"
       and obj = "attrs_of [(''has_object_read_permission'', False)]"]
  by (simp add: fixture_defs DRYPermissions_def DRYObjectPermissions_def
        DRYGlobalPermissions_def has_permission_def has_object_permission_def get_action_def
        global_method_name_def object_method_name_def SAFE_METHODS_def Let_def)

section \<open>Properties of the filter router\<close>

text \<open>
  Claim C5. When the view's lookup field is among the keys of the view's routing
  parameters, \<^verbatim>\<open>filter_queryset\<close> returns the queryset it was given, for every setting
  of \<^verbatim>\<open>action_routing\<close> and every set of filter methods of the subclass.
\<close>

theorem single_object_request_unfiltered:
  assumes "lookup_field vw \<in> set (kwargs vw)"
  shows "filter_queryset self req queryset vw = Inr queryset"
  using assms by (simp add: filter_queryset_def)

theorem single_object_request_unfiltered_witness:
  "filter_queryset \<lparr>action_routing = True, filter_methods = Map.empty\<rparr> (test_request ''GET'')
     [1, 2, 3 :: nat] (test_view (Some ''retrieve'') None [] [''pk''])
   = Inr [1, 2, 3]"
  using single_object_request_unfiltered
    [where vw = "test_view (Some ''retrieve'') None [] [''pk'']"]
  by (simp add: fixture_defs)

text \<open>
  Claim C7. For a list request (the lookup field is not among the routing parameters):
  without action routing, \<^verbatim>\<open>filter_queryset\<close> returns what \<^verbatim>\<open>filter_list_queryset\<close>
  returns, and the base class's \<^verbatim>\<open>filter_list_queryset\<close> raises an assertion error; with
  action routing, it returns what the method \<^verbatim>\<open>filter_{action}_queryset\<close> found on the
  instance returns, and raises an attribute error when the instance has no such method.
  The instance has the method when the subclass defines it or the base class provides
  it, which is so for \<^verbatim>\<open>filter_list_queryset\<close> alone; a view without an action raises
  an attribute error as well.
\<close>

theorem list_request_routing:
  assumes "lookup_field vw \<notin> set (kwargs vw)"
  shows "(\<not> action_routing self \<longrightarrow>
            filter_queryset self req queryset vw =
              (case filter_methods self ''filter_list_queryset'' of
                 Some m \<Rightarrow> Inr (m req queryset vw)
               | None \<Rightarrow> filter_list_queryset req queryset vw))
       \<and> (filter_list_queryset req queryset vw :: error + 'q) =
            Inl (AssertionError
              (''Method filter_list_queryset must be overridden on ''
                 @ quote @ view_class_name vw @ quote))
       \<and> (action_routing self \<longrightarrow> action vw = Some a \<longrightarrow>
            filter_queryset self req queryset vw =
              (case filter_methods self (''filter_'' @ a @ ''_queryset'') of
                 Some m \<Rightarrow> Inr (m req queryset vw)
               | None \<Rightarrow>
                   if a = ''list'' then filter_list_queryset req queryset vw
                   else Inl (AttributeError (''filter_'' @ a @ ''_queryset''))))
       \<and> (action_routing self \<longrightarrow> action vw = None \<longrightarrow>
            filter_queryset self req queryset vw = Inl (AttributeError ''action''))"
  using assms
  by (auto simp add: filter_queryset_def getattr_backend_def filter_list_queryset_def Let_def
        split: option.split)

theorem list_request_routing_witness:
  "filter_queryset (test_filter_backend False) (test_request ''GET'') [1, 2, 3]
     (test_view (Some ''list'') None [] []) = Inr []
   \<and> filter_queryset (test_filter_backend True) (test_request ''GET'') [1, 2, 3]
     (test_view (Some ''custom_action1'') None [] []) = Inr [3, 2, 1]
   \<and> filter_queryset (test_filter_backend True) (test_request ''GET'') [1, 2, 3]
     (test_view (Some ''custom_action2'') None [] [])
     = Inl (AttributeError ''filter_custom_action2_queryset'')"
  using list_request_routing
    [where vw = "test_view (Some ''list'') None [] []" and self = "test_filter_backend False"
       and req = "test_request ''GET''" and queryset = "[1, 2, 3]"]
    list_request_routing
    [where vw = "test_view (Some ''custom_action1'') None [] []"
       and self = "test_filter_backend True" and a = "''custom_action1''"
       and req = "test_request ''GET''" and queryset = "[1, 2, 3]"]
    list_request_routing
    [where vw = "test_view (Some ''custom_action2'') None [] []"
       and self = "test_filter_backend True" and a = "''custom_action2''"
       and req = "test_request ''GET''" and queryset = "[1, 2, 3]"]
  by (simp add: fixture_defs test_filter_backend_def)

section \<open>Properties of the staff decorator\<close>

text \<open>
  Claim C8, as the specification states it, takes the request from the second positional
  argument whenever the name of the wrapped function contains \<^verbatim>\<open>object\<close>. The name
  \<^verbatim>\<open>has_edit_object_permission\<close> contains it, yet the wrapper reads the first
  argument: called with a staff request alone (there is no second argument) it returns
  true, and called with a staff request followed by an ordinary request it returns true
  without calling the function, whose own answer is false.
\<close>

theorem name_containing_object_counterexample:
  "sublist ''object'' (func_name wrapped_edit_object)
   \<and> arg_at [ArgRequest (staff_request ''GET'')] 1 = Inl IndexError
   \<and> allow_staff_or_superuser wrapped_edit_object [ArgRequest (staff_request ''GET'')] []
     = ([], Inr True)
   \<and> arg_at [ArgRequest (staff_request ''GET''), ArgRequest (test_request ''GET'')] 1
     = Inr (ArgRequest (test_request ''GET''))
   \<and> user (test_request ''GET'') = Some \<lparr>is_staff = False, is_superuser = False\<rparr>
   \<and> func_body wrapped_edit_object
       [ArgRequest (staff_request ''GET''), ArgRequest (test_request ''GET'')] [] = False
   \<and> allow_staff_or_superuser wrapped_edit_object
       [ArgRequest (staff_request ''GET''), ArgRequest (test_request ''GET'')] []
     = ([], Inr True)"
  by (simp add: allow_staff_or_superuser_def wrapped_edit_object_def arg_at_def fixture_defs
        sublist_code prefix_code)

text \<open>
  Claim C8, amended. The wrapper takes the request from the second positional argument
  when the name of the wrapped function contains \<^verbatim>\<open>has_object\<close> and from the first
  otherwise. When that argument is a request with a user: if the user is staff or
  superuser the wrapper returns true without calling the function, otherwise it calls the
  function on the same arguments and returns its result.
\<close>

theorem staff_bypass_by_has_object:
  assumes "arg_at args (if sublist ''has_object'' (func_name func) then 1 else 0)
             = Inr (ArgRequest req)"
    and "user req = Some u"
  shows "allow_staff_or_superuser func args kwds =
           (if is_staff u \<or> is_superuser u then ([], Inr True)
            else ([Call Wrapped (func_name func)], Inr (func_body func args kwds)))"
proof (cases "sublist ''has_object'' (func_name func)")
  case True
  with assms(1) have "1 < length args" and "args ! 1 = ArgRequest req"
    by (auto simp add: arg_at_def split: if_splits)
  then show ?thesis using True assms(2)
    by (cases args) (simp_all add: allow_staff_or_superuser_def arg_at_def)
next
  case False
  with assms(1) have "0 < length args" and "args ! 0 = ArgRequest req"
    by (auto simp add: arg_at_def split: if_splits)
  then show ?thesis using False assms(2)
    by (simp add: allow_staff_or_superuser_def arg_at_def)
qed

theorem staff_bypass_by_has_object_witness:
  "allow_staff_or_superuser wrapped_object_read
     [ArgObject ''instance'', ArgRequest (staff_request ''GET'')] [] = ([], Inr True)
   \<and> allow_staff_or_superuser wrapped_global_read [ArgRequest (test_request ''GET'')] []
     = ([Call Wrapped ''has_read_permission''], Inr False)"
  using staff_bypass_by_has_object
    [where func = wrapped_object_read
       and args = "[ArgObject ''instance'', ArgRequest (staff_request ''GET'')]"
       and req = "staff_request ''GET''"
       and u = "\<lparr>is_staff = True, is_superuser = False\<rparr>" and kwds = "[]"]
    staff_bypass_by_has_object
    [where func = wrapped_global_read
       and args = "[ArgRequest (test_request ''GET'')]"
       and req = "test_request ''GET''"
       and u = "\<lparr>is_staff = False, is_superuser = False\<rparr>" and kwds = "[]"]
  by (simp add: fixture_defs wrapped_object_read_def wrapped_global_read_def
        arg_at_def sublist_code prefix_code)

section \<open>Properties of the permissions field\<close>

text \<open>
  Claim C9. Whatever keyword arguments the caller passes, a construction that succeeds
  has handed \<^verbatim>\<open>source = '*'\<close> and \<^verbatim>\<open>read_only = True\<close> to the base constructor;
  the caller's own values for the two keys have no effect on the outcome; and a
  construction succeeds whenever the two modes are not both set and the base
  constructor accepts the forced keyword arguments.
\<close>

theorem init_forces_source_and_read_only:
  shows "(DRYPermissionsField_init base_init acts additional g_only o_only kw = Inr f \<longrightarrow>
            super_kwargs f ''source'' = Some (PyStr ''*'')
            \<and> super_kwargs f ''read_only'' = Some (PyBool True)
            \<and> base_init (super_kwargs f) = Inr (base f))
       \<and> DRYPermissionsField_init base_init acts additional g_only o_only
            (kw(''source'' := s, ''read_only'' := r))
          = DRYPermissionsField_init base_init acts additional g_only o_only kw
       \<and> (\<not> (g_only \<and> o_only) \<longrightarrow>
            base_init (kw(''source'' \<mapsto> PyStr ''*'', ''read_only'' \<mapsto> PyBool True)) = Inr b \<longrightarrow>
            (\<exists>f'. DRYPermissionsField_init base_init acts additional g_only o_only kw = Inr f'
                  \<and> base f' = b
                  \<and> super_kwargs f' = kw(''source'' \<mapsto> PyStr ''*'', ''read_only'' \<mapsto> PyBool True)))"
  by (auto simp add: DRYPermissionsField_init_def Let_def split: sum.splits if_splits)

theorem init_forces_source_and_read_only_witness:
  "\<exists>f. DRYPermissionsField_init (\<lambda>kw. Inr ()) None None False False
          [''source'' \<mapsto> PyStr ''owner'', ''read_only'' \<mapsto> PyBool False] = Inr f
       \<and> super_kwargs f ''source'' = Some (PyStr ''*'')
       \<and> super_kwargs f ''read_only'' = Some (PyBool True)"
proof -
  let ?kw = "[''source'' \<mapsto> PyStr ''owner'', ''read_only'' \<mapsto> PyBool False]"
  note forced = init_forces_source_and_read_only
    [where base_init = "\<lambda>kw. Inr ()" and acts = None and additional = None
       and g_only = False and o_only = False and kw = ?kw and b = "()"]
  from forced have "\<exists>f. DRYPermissionsField_init (\<lambda>kw. Inr ()) None None False False ?kw = Inr f"
    by blast
  then obtain f where
    f: "DRYPermissionsField_init (\<lambda>kw. Inr ()) None None False False ?kw = Inr f"
    by blast
  from forced[where f = f] f
  have "super_kwargs f ''source'' = Some (PyStr ''*'')
        \<and> super_kwargs f ''read_only'' = Some (PyBool True)"
    by blast
  with f show ?thesis by blast
qed

lemma map_of_bind_action:
  assumes "\<not> global_only self" and "\<not> object_only self"
    and "map_of amap act = None \<or> map_of amap act = entry_for mc act"
  shows "map_of (bind_action self mc amap act) = (map_of amap)(act := entry_for mc act)"
  using assms
  by (auto simp add: bind_action_def Let_def update_conv' map_of_map_entry entry_for_def
        fun_eq_iff split: option.splits if_splits)

lemma bind_action_distinct:
  "distinct (map fst amap) \<Longrightarrow> distinct (map fst (bind_action self mc amap act))"
  by (simp add: bind_action_def Let_def distinct_update distinct_map_entry split: option.split)

lemma map_of_bind_loop:
  assumes "\<not> global_only self" and "\<not> object_only self"
    and "\<And>k. map_of amap k = (if k \<in> S then entry_for mc k else None)"
  shows "map_of (foldl (bind_action self mc) amap acts) k =
           (if k \<in> S \<union> set acts then entry_for mc k else None)"
  using assms(3)
proof (induction acts arbitrary: amap S)
  case Nil
  then show ?case by simp
next
  case (Cons a acts)
  have step: "map_of (bind_action self mc amap a) = (map_of amap)(a := entry_for mc a)"
    by (rule map_of_bind_action[OF assms(1,2)]) (simp add: Cons.prems)
  have "map_of (foldl (bind_action self mc) (bind_action self mc amap a) acts) k =
          (if k \<in> insert a S \<union> set acts then entry_for mc k else None)"
    by (rule Cons.IH) (simp add: step Cons.prems)
  then show ?case by simp
qed

lemma bind_loop_distinct:
  "distinct (map fst amap) \<Longrightarrow> distinct (map fst (foldl (bind_action self mc) amap acts))"
  by (induction acts arbitrary: amap) (simp_all add: bind_action_distinct)

lemma represent_action_step:
  assumes "\<not> global_only self" and "\<not> object_only self"
    and "parent self = Some par" and "meta_model par = Some mc"
    and "context_request par = Some req"
    and "map_of rs act = None"
    and "resolvable (class_attrs mc) val mn"
  shows "\<exists>rs1. represent_action self val (act, mn) (tr, rs)
                 = (tr @ entry_trace (class_attrs mc) req mn, Inr rs1)
               \<and> map_of rs1 = (map_of rs)(act := entry_value (class_attrs mc) val req mn)"
  using assms
  by (auto simp add: represent_action_def invoke_def entry_trace_def entry_value_def
        resolvable_def hasattr_def update_conv' fun_eq_iff
        split: option.splits)

lemma represent_loop_result:
  assumes "\<not> global_only self" and "\<not> object_only self"
    and "parent self = Some par" and "meta_model par = Some mc"
    and "context_request par = Some req"
  shows "distinct (map fst items) \<Longrightarrow>
         (\<And>k mn. (k, mn) \<in> set items \<Longrightarrow> resolvable (class_attrs mc) val mn) \<Longrightarrow>
         (\<And>k. k \<in> fst ` set items \<Longrightarrow> map_of rs k = None) \<Longrightarrow>
         \<exists>rs'. represent_loop self val items (tr, rs)
                  = (tr @ concat (map (\<lambda>(k, mn). entry_trace (class_attrs mc) req mn) items),
                     Inr rs')
               \<and> (\<forall>k. map_of rs' k =
                        (case map_of items k of
                           Some mn \<Rightarrow> entry_value (class_attrs mc) val req mn
                         | None \<Rightarrow> map_of rs k))"
proof (induction items arbitrary: tr rs)
  case Nil
  then show ?case by simp
next
  case (Cons item items)
  obtain act mn where item: "item = (act, mn)" by (cases item)
  have fresh: "map_of rs act = None"
    using Cons.prems(3)[of act] by (simp add: item)
  have res: "resolvable (class_attrs mc) val mn"
    using Cons.prems(2)[of act mn] by (simp add: item)
  from represent_action_step[OF assms fresh res, of tr]
  obtain rs1 where
    step: "represent_action self val (act, mn) (tr, rs)
             = (tr @ entry_trace (class_attrs mc) req mn, Inr rs1)"
    and rs1: "map_of rs1 = (map_of rs)(act := entry_value (class_attrs mc) val req mn)"
    by blast
  have notin: "act \<notin> fst ` set items"
    using Cons.prems(1) by (simp add: item)
  have d: "distinct (map fst items)"
    using Cons.prems(1) by simp
  have r: "\<And>k mn. (k, mn) \<in> set items \<Longrightarrow> resolvable (class_attrs mc) val mn"
    using Cons.prems(2) by auto
  have f: "\<And>k. k \<in> fst ` set items \<Longrightarrow> map_of rs1 k = None"
    using Cons.prems(3) notin by (auto simp add: rs1)
  have "\<exists>rs'. represent_loop self val items (tr @ entry_trace (class_attrs mc) req mn, rs1)
             = ((tr @ entry_trace (class_attrs mc) req mn)
                  @ concat (map (\<lambda>(k, mn). entry_trace (class_attrs mc) req mn) items),
                Inr rs')
           \<and> (\<forall>k. map_of rs' k =
                    (case map_of items k of
                       Some mn \<Rightarrow> entry_value (class_attrs mc) val req mn
                     | None \<Rightarrow> map_of rs1 k))"
  proof (rule Cons.IH)
    show "distinct (map fst items)" by (rule d)
    show "\<And>k mn. (k, mn) \<in> set items \<Longrightarrow> resolvable (class_attrs mc) val mn" by (rule r)
    show "\<And>k. k \<in> fst ` set items \<Longrightarrow> map_of rs1 k = None" by (rule f)
  qed
  then obtain rs' where
    loop: "represent_loop self val items (tr @ entry_trace (class_attrs mc) req mn, rs1)
             = ((tr @ entry_trace (class_attrs mc) req mn)
                  @ concat (map (\<lambda>(k, mn). entry_trace (class_attrs mc) req mn) items),
                Inr rs')"
    and rs': "\<forall>k. map_of rs' k =
                (case map_of items k of
                   Some mn \<Rightarrow> entry_value (class_attrs mc) val req mn
                 | None \<Rightarrow> map_of rs1 k)"
    by blast
  have none: "map_of items act = None"
    using notin by (simp add: map_of_eq_None_iff)
  show ?case
  proof (intro exI conjI allI)
    show "represent_loop self val (item # items) (tr, rs)
            = (tr @ concat (map (\<lambda>(k, mn). entry_trace (class_attrs mc) req mn) (item # items)),
               Inr rs')"
      by (simp add: item step loop)
  next
    fix k
    show "map_of rs' k =
            (case map_of (item # items) k of
               Some mn \<Rightarrow> entry_value (class_attrs mc) val req mn
             | None \<Rightarrow> map_of rs k)"
      using rs' none by (simp add: item rs1 split: option.split)
  qed
qed

lemma object_method_name_inj:
  "object_method_name a = object_method_name b \<Longrightarrow> a = b"
  by (simp add: object_method_name_def)

lemma entry_for_Some_eq:
  assumes "entry_for mc k = Some mn"
  shows "mn = \<lparr>mn_global = (if hasattr (class_attrs mc) (global_method_name k)
                              then Some (global_method_name k) else None),
                 mn_object = (if hasattr (class_attrs mc) (object_method_name k)
                              then Some (object_method_name k) else None)\<rparr>"
proof (cases "hasattr (class_attrs mc) (global_method_name k)")
  case True
  with assms show ?thesis by (simp add: entry_for_def)
next
  case no_global: False
  show ?thesis
  proof (cases "hasattr (class_attrs mc) (object_method_name k)")
    case True
    with assms no_global show ?thesis by (simp add: entry_for_def)
  next
    case False
    with assms no_global show ?thesis by (simp add: entry_for_def)
  qed
qed

lemma entry_for_SomeD:
  assumes "entry_for mc k = Some mn"
  shows "(case mn_global mn of Some gn \<Rightarrow> hasattr (class_attrs mc) gn | None \<Rightarrow> True)"
    and "mn_object mn =
           (if hasattr (class_attrs mc) (object_method_name k)
            then Some (object_method_name k) else None)"
  using entry_for_Some_eq[OF assms] by simp_all

lemma object_call_in_entry_trace:
  "Call OnObject n \<in> set (entry_trace mtbl req mn) \<longleftrightarrow>
     mn_object mn = Some n
     \<and> (case mn_global mn of
          Some gn \<Rightarrow> (case mtbl gn of Some g \<Rightarrow> g req | None \<Rightarrow> False)
        | None \<Rightarrow> True)"
  unfolding entry_trace_def
  by (cases "mn_global mn"; cases "mn_object mn";
      simp only: option.case list.set insert_iff empty_iff event.inject target.distinct
        if_cancel simp_thms option.inject option.distinct split: if_split)
     auto

text \<open>
  Claim C4. Take a field built with both modes off and bound to a serializer with a model
  class, and an instance \<open>val\<close> of that class (it has every object method that the class
  has for the configured actions). Then \<^verbatim>\<open>to_representation\<close> returns a dictionary, and
  for every configured action \<open>a\<close>: when the class has both the global and the object
  method, the dictionary maps \<open>a\<close> to the conjunction of the two results, and the object
  method is called exactly when the global result is true; when the class has only one
  of them, the dictionary maps \<open>a\<close> to that method's result; when it has neither, \<open>a\<close> is
  not a key of the dictionary.
\<close>

theorem field_reports_conjunction:
  assumes init: "DRYPermissionsField_init base_init acts additional False False kw = Inr f0"
    and bound: "bind f0 fname par = Inr f"
    and model: "meta_model par = Some mc"
    and ctx: "context_request par = Some req"
    and inst: "\<forall>b \<in> set (actions f0). hasattr (class_attrs mc) (object_method_name b)
                 \<longrightarrow> hasattr val (object_method_name b)"
    and a: "a \<in> set (actions f0)"
  shows "\<exists>tr res. to_representation f val = (tr, Inr res)
      \<and> (\<forall>g ob. class_attrs mc (global_method_name a) = Some g \<longrightarrow>
                 class_attrs mc (object_method_name a) \<noteq> None \<longrightarrow>
                 val (object_method_name a) = Some ob \<longrightarrow>
                 map_of res a = Some (g req \<and> ob req)
                 \<and> (Call OnObject (object_method_name a) \<in> set tr \<longleftrightarrow> g req))
      \<and> (\<forall>g. class_attrs mc (global_method_name a) = Some g \<longrightarrow>
              class_attrs mc (object_method_name a) = None \<longrightarrow>
              map_of res a = Some (g req))
      \<and> (\<forall>ob. class_attrs mc (global_method_name a) = None \<longrightarrow>
               class_attrs mc (object_method_name a) \<noteq> None \<longrightarrow>
               val (object_method_name a) = Some ob \<longrightarrow>
               map_of res a = Some (ob req))
      \<and> (class_attrs mc (global_method_name a) = None \<longrightarrow>
          class_attrs mc (object_method_name a) = None \<longrightarrow>
          map_of res a = None)"
proof -
  define amap where "amap = foldl (bind_action f0 mc) [] (actions f0)"
  have f0: "global_only f0 = False" "object_only f0 = False" "action_method_map f0 = []"
    using init by (auto simp add: DRYPermissionsField_init_def Let_def split: sum.splits)
  have f: "action_method_map f = amap" "parent f = Some par"
    "\<not> global_only f" "\<not> object_only f"
    using bound model f0 by (auto simp add: bind_def amap_def)
  have M: "map_of amap k = (if k \<in> set (actions f0) then entry_for mc k else None)" for k
    using map_of_bind_loop[where self = f0 and amap = "[]" and S = "{}" and mc = mc
        and k = k and acts = "actions f0"] f0
    by (simp add: amap_def)
  have D: "distinct (map fst amap)"
    unfolding amap_def by (rule bind_loop_distinct) simp
  have E: "k \<in> set (actions f0) \<and> entry_for mc k = Some mn" if "(k, mn) \<in> set amap" for k mn
  proof -
    from that D have "map_of amap k = Some mn" by simp
    then show ?thesis by (simp add: M split: if_splits)
  qed
  have R: "resolvable (class_attrs mc) val mn" if "(k, mn) \<in> set amap" for k mn
  proof -
    from E[OF that] have k: "k \<in> set (actions f0)" and e: "entry_for mc k = Some mn"
      by simp_all
    show ?thesis
      using entry_for_SomeD[OF e] inst k
      by (auto simp add: resolvable_def split: option.splits)
  qed
  have "\<exists>rs'. represent_loop f val amap ([], [])
                 = ([] @ concat (map (\<lambda>(k, mn). entry_trace (class_attrs mc) req mn) amap),
                    Inr rs')
              \<and> (\<forall>k. map_of rs' k =
                       (case map_of amap k of
                          Some mn \<Rightarrow> entry_value (class_attrs mc) val req mn
                        | None \<Rightarrow> map_of [] k))"
  proof (rule represent_loop_result[OF f(3,4,2) model ctx])
    show "distinct (map fst amap)" by (rule D)
    show "\<And>k mn. (k, mn) \<in> set amap \<Longrightarrow> resolvable (class_attrs mc) val mn" by (rule R)
    show "\<And>k. k \<in> fst ` set amap \<Longrightarrow> map_of [] k = None" by simp
  qed
  then obtain res where
    run0: "represent_loop f val amap ([], [])
            = ([] @ concat (map (\<lambda>(k, mn). entry_trace (class_attrs mc) req mn) amap),
               Inr res)"
    and res0: "\<forall>k. map_of res k =
                (case map_of amap k of
                   Some mn \<Rightarrow> entry_value (class_attrs mc) val req mn
                 | None \<Rightarrow> map_of [] k)"
    by blast
  have run: "to_representation f val
            = (concat (map (\<lambda>(k, mn). entry_trace (class_attrs mc) req mn) amap), Inr res)"
    using run0 by (simp add: to_representation_def f(1))
  have res: "map_of res k =
                (case map_of amap k of
                   Some mn \<Rightarrow> entry_value (class_attrs mc) val req mn
                 | None \<Rightarrow> None)" for k
    using res0 by (simp split: option.split)
  let ?tr = "concat (map (\<lambda>(k, mn). entry_trace (class_attrs mc) req mn) amap)"
  have res_a: "map_of res a =
                 (case entry_for mc a of
                    Some mn \<Rightarrow> entry_value (class_attrs mc) val req mn
                  | None \<Rightarrow> None)"
    using a by (simp add: res M)
  have called: "Call OnObject (object_method_name a) \<in> set ?tr \<longleftrightarrow> g req"
    if g: "class_attrs mc (global_method_name a) = Some g"
      and ob: "class_attrs mc (object_method_name a) \<noteq> None" for g
  proof
    assume "Call OnObject (object_method_name a) \<in> set ?tr"
    then obtain k mn where in_amap: "(k, mn) \<in> set amap"
      and ev: "Call OnObject (object_method_name a) \<in> set (entry_trace (class_attrs mc) req mn)"
      by auto
    from E[OF in_amap] have e: "entry_for mc k = Some mn" by simp
    from ev have o: "mn_object mn = Some (object_method_name a)"
      by (simp add: object_call_in_entry_trace)
    with entry_for_SomeD(2)[OF e] have "k = a"
      by (auto dest: object_method_name_inj split: if_splits)
    with e ev g show "g req"
      by (auto simp add: entry_for_def object_call_in_entry_trace hasattr_def
            split: if_splits)
  next
    assume "g req"
    have "map_of amap a = entry_for mc a" using a by (simp add: M)
    moreover have "entry_for mc a =
        Some \<lparr>mn_global = Some (global_method_name a),
              mn_object = Some (object_method_name a)\<rparr>"
      using g ob by (simp add: entry_for_def hasattr_def)
    ultimately have "(a, \<lparr>mn_global = Some (global_method_name a),
                          mn_object = Some (object_method_name a)\<rparr>) \<in> set amap"
      by (simp add: map_of_SomeD)
    moreover have "Call OnObject (object_method_name a)
        \<in> set (entry_trace (class_attrs mc) req
                 \<lparr>mn_global = Some (global_method_name a),
                  mn_object = Some (object_method_name a)\<rparr>)"
      using g \<open>g req\<close> by (simp add: object_call_in_entry_trace)
    ultimately show "Call OnObject (object_method_name a) \<in> set ?tr"
      by force
  qed
  show ?thesis
  proof (intro exI conjI allI impI)
    show "to_representation f val = (?tr, Inr res)" by (rule run)
  next
    fix g ob
    assume "class_attrs mc (global_method_name a) = Some g"
      and "class_attrs mc (object_method_name a) \<noteq> None"
      and "val (object_method_name a) = Some ob"
    then show "map_of res a = Some (g req \<and> ob req)"
      by (auto simp add: res_a entry_for_def entry_value_def hasattr_def)
  next
    fix g ob
    assume "class_attrs mc (global_method_name a) = Some g"
      and "class_attrs mc (object_method_name a) \<noteq> None"
    then show "Call OnObject (object_method_name a) \<in> set ?tr \<longleftrightarrow> g req"
      by (rule called)
  next
    fix g
    assume "class_attrs mc (global_method_name a) = Some g"
      and "class_attrs mc (object_method_name a) = None"
    then show "map_of res a = Some (g req)"
      by (simp add: res_a entry_for_def entry_value_def hasattr_def)
  next
    fix ob
    assume "class_attrs mc (global_method_name a) = None"
      and "class_attrs mc (object_method_name a) \<noteq> None"
      and "val (object_method_name a) = Some ob"
    then show "map_of res a = Some (ob req)"
      by (auto simp add: res_a entry_for_def entry_value_def hasattr_def)
  next
    assume "class_attrs mc (global_method_name a) = None"
      and "class_attrs mc (object_method_name a) = None"
    then show "map_of res a = None"
      by (simp add: res_a entry_for_def hasattr_def)
  qed
qed

theorem field_reports_conjunction_witness:
  "\<exists>f0 f tr res.
     DRYPermissionsField_init (\<lambda>kw. Inr ()) None None False False Map.empty = Inr f0
     \<and> bind f0 ''permissions''
         (test_serializer (Some (test_model [(''has_create_permission'', False),
                                              (''has_object_create_permission'', True)])))
       = Inr f
     \<and> to_representation f
         (attrs_of [(''has_create_permission'', False), (''has_object_create_permission'', True)])
       = (tr, Inr res)
     \<and> map_of res ''create'' = Some False
     \<and> Call OnObject ''has_object_create_permission'' \<notin> set tr"
proof -
  let ?tbl = "[(''has_create_permission'', False), (''has_object_create_permission'', True)]"
  let ?mc = "test_model ?tbl"
  let ?par = "test_serializer (Some ?mc)"
  obtain f0 where
    i: "DRYPermissionsField_init (\<lambda>kw. Inr ()) None None False False Map.empty = Inr f0"
    by (simp add: DRYPermissionsField_init_def)
  then have acts: "actions f0 = default_actions"
    by (auto simp add: DRYPermissionsField_init_def)
  obtain f where b: "bind f0 ''permissions'' ?par = Inr f"
    by (simp add: bind_def test_serializer_def)
  have m: "meta_model ?par = Some ?mc"
    by (simp add: test_serializer_def)
  have c: "context_request ?par = Some (test_request ''GET'')"
    by (simp add: test_serializer_def)
  have inst: "\<forall>b \<in> set (actions f0). hasattr (class_attrs ?mc) (object_method_name b)
                 \<longrightarrow> hasattr (attrs_of ?tbl) (object_method_name b)"
    by (simp add: test_model_def)
  have a: "''create'' \<in> set (actions f0)"
    by (simp add: acts default_actions_def)
  have g: "class_attrs ?mc (global_method_name ''create'') = Some (\<lambda>_. False)"
    by (simp add: test_model_def attrs_of_def global_method_name_def)
  have ob: "class_attrs ?mc (object_method_name ''create'') \<noteq> None"
    by (simp add: test_model_def attrs_of_def object_method_name_def)
  have v: "attrs_of ?tbl (object_method_name ''create'') = Some (\<lambda>_. True)"
    by (simp add: attrs_of_def object_method_name_def)
  from field_reports_conjunction[OF i b m c inst a] obtain tr res where
    run: "to_representation f (attrs_of ?tbl) = (tr, Inr res)"
    and both: "\<forall>g ob. class_attrs ?mc (global_method_name ''create'') = Some g \<longrightarrow>
                 class_attrs ?mc (object_method_name ''create'') \<noteq> None \<longrightarrow>
                 attrs_of ?tbl (object_method_name ''create'') = Some ob \<longrightarrow>
                 map_of res ''create'' = Some (g (test_request ''GET'') \<and> ob (test_request ''GET''))
                 \<and> (Call OnObject (object_method_name ''create'') \<in> set tr
                      \<longleftrightarrow> g (test_request ''GET''))"
    by blast
  from both[rule_format, OF g ob v]
  have "map_of res ''create'' = Some False
        \<and> Call OnObject (object_method_name ''create'') \<notin> set tr"
    by simp
  then have "map_of res ''create'' = Some False
        \<and> Call OnObject ''has_object_create_permission'' \<notin> set tr"
    by (simp add: object_method_name_def)
  with i b run show ?thesis by blast
qed

end
